theory Spec2Isabelle
  imports Complex_Main "HOL-Library.Word"
begin

section \<open>The external-memory DMatrix (sparse\_page\_dmatrix.cc)\<close>

text \<open>
  A shallow embedding of \<^verbatim>\<open>src/data/sparse_page_dmatrix.cc\<close>. The member functions of
  \<^verbatim>\<open>SparsePageDMatrix\<close> become state transformers on a record of its data members (a
  member \<^verbatim>\<open>info_\<close> of the class is the field \<open>info\<close> of the record, and so on for each),
  together with the part of the outside world they touch: the user's data iterator, the
  staging proxy, the cache files. A fatal \<^verbatim>\<open>CHECK\<close> or \<^verbatim>\<open>LOG(FATAL)\<close> becomes an error value;
  the state reached when the failure is raised is returned beside it, so that what had
  already happened before the failure can be read off.
\<close>

subsection \<open>Machine integers and errors\<close>

type_synonym size_t = "64 word"
type_synonym uint32_t = "32 word"

text \<open>The fatal checks of the file, one constructor per \<^verbatim>\<open>CHECK\<close> line.\<close>

datatype check =
    NumColNonzero          \<comment> \<open>\<^verbatim>\<open>CHECK_NE(info_.num_col_, 0)\<close>, lines 98, 132, 147\<close>
  | SparsePageSourceSet    \<comment> \<open>\<^verbatim>\<open>CHECK(sparse_page_source_)\<close>, line 106\<close>
  | MaxBinAtLeast2         \<comment> \<open>\<^verbatim>\<open>CHECK_GE(param.max_bin, 2)\<close>, line 161\<close>
  | CutsNonEmpty           \<comment> \<open>\<^verbatim>\<open>CHECK_NE(cuts.Values().size(), 0)\<close>, line 189\<close>
  | GHistIndexSourceSet    \<comment> \<open>\<^verbatim>\<open>CHECK(ghist_index_source_)\<close>, line 196\<close>

datatype error =
    CheckFailed check
  | GPUSupportMissing      \<comment> \<open>raised by \<^verbatim>\<open>common::AssertGPUSupport\<close>\<close>
  | OutOfRange             \<comment> \<open>\<^verbatim>\<open>std::map::at\<close> on a missing key\<close>

subsection \<open>Pages, raw batches and dataset metadata\<close>

type_synonym Entry = "uint32_t \<times> real"

record SparsePage =
  offset :: "size_t list"
  data :: "Entry list"

text \<open>\<^verbatim>\<open>page.data.Size()\<close>: the number of stored entries, as a \<^verbatim>\<open>size_t\<close>.\<close>

definition Size :: "'a list \<Rightarrow> size_t" where
  "Size xs = of_nat (length xs)"

definition empty_page :: SparsePage where
  "empty_page = \<lparr>offset = [0], data = []\<rparr>"

datatype FeatureType = kNumerical | kCategorical

record MetaInfo =
  num_row :: size_t
  num_col :: size_t
  num_nonzero :: size_t
  feature_types :: "FeatureType list"

definition MetaInfo_init :: MetaInfo where
  "MetaInfo_init = \<lparr>num_row = 0, num_col = 0, num_nonzero = 0, feature_types = []\<rparr>"

text \<open>
  Modelled from the spec: \<^verbatim>\<open>MetaInfo::Extend\<close> is defined outside this file. The spec says
  that a batch's metadata is merged into the dataset metadata "without duplicating global
  fields": the feature type tags are global, so they are taken over from the batch when it
  carries them and are never appended. With \<^verbatim>\<open>accumulate_rows = false\<close>, as the constructor
  calls it, the row count is left alone. (The constructor overwrites all three counts after
  its loop, line 93 to 95.)
\<close>

definition Extend :: "MetaInfo \<Rightarrow> MetaInfo \<Rightarrow> bool \<Rightarrow> bool \<Rightarrow> MetaInfo" where
  "Extend dst that accumulate_rows check_column =
     dst\<lparr>num_row := (if accumulate_rows then num_row dst + num_row that else num_row dst),
         feature_types := (if feature_types that = [] then feature_types dst
                           else feature_types that)\<rparr>"

text \<open>
  A raw batch, as the user's iterator stages it in the proxy. Its adapter is either one of
  the host representations, whose \<^verbatim>\<open>NumRows()\<close> and \<^verbatim>\<open>NumCols()\<close> the host dispatch can call,
  or a device-resident one. \<open>page\<close> is the row page the primary page source materialises
  from the batch.
\<close>

datatype Adapter =
    is_HostAdapter: HostAdapter (NumRows: size_t) (NumCols: size_t)
  | DeviceAdapter (NumRows: size_t) (NumCols: size_t)

record DMatrixProxy =
  adapter :: Adapter
  Info :: MetaInfo
  page :: SparsePage

subsection \<open>Batch parameters\<close>

record BatchParam =
  max_bin :: int
  hess :: "real list"
  regen :: bool

text \<open>
  Modelled from the spec: the declaration of \<^verbatim>\<open>BatchParam\<close> (its default member values and
  its \<^verbatim>\<open>operator!=\<close>) is in a header outside this file. The spec's record has a maximum bin
  count, an optional per-row weighting and a force-regenerate flag; the default-constructed
  record has no bins, no weighting and no forced regeneration, and two records differ when
  one of their fields does.
\<close>

definition BatchParam_default :: BatchParam where
  "BatchParam_default = \<lparr>max_bin = 0, hess = [], regen = False\<rparr>"

definition BatchParam_ne :: "BatchParam \<Rightarrow> BatchParam \<Rightarrow> bool" where
  "BatchParam_ne a b = (max_bin a \<noteq> max_bin b \<or> hess a \<noteq> hess b \<or> regen a \<noteq> regen b)"

subsection \<open>Build and runtime environment\<close>

text \<open>
  What the file takes from its surroundings: whether it was compiled with
  \<^verbatim>\<open>XGBOOST_USE_CUDA\<close>; the distributed runtime (\<^verbatim>\<open>rabit\<close>); and the collaborators whose
  results it only passes on (the quantile sketch, the thread count of the context, the
  density test of the matrix).
\<close>

record env =
  use_cuda :: bool
  IsDistributed :: bool
  GetRank :: int
  peer_num_col :: "size_t list"    \<comment> \<open>the column counts the other workers contribute\<close>
  Threads :: "int \<Rightarrow> int"         \<comment> \<open>\<^verbatim>\<open>ctx_.Threads()\<close> from \<^verbatim>\<open>ctx_.nthread\<close>\<close>
  IsDense :: "MetaInfo \<Rightarrow> bool"    \<comment> \<open>\<^verbatim>\<open>this->IsDense()\<close>\<close>
  sketch :: "SparsePage list \<Rightarrow> int \<Rightarrow> bool \<Rightarrow> real list \<Rightarrow> real list"
    \<comment> \<open>the cut values \<^verbatim>\<open>common::SketchOnDMatrix\<close> computes from the row pages\<close>

text \<open>
  Modelled from the spec: \<^verbatim>\<open>rabit::Allreduce<rabit::op::Max>\<close> is the collaborator that
  "computes the maximum of a scalar across all workers".
\<close>

definition Allreduce_Max :: "env \<Rightarrow> size_t \<Rightarrow> size_t" where
  "Allreduce_Max e x = fold max (peer_num_col e) x"

text \<open>
  Modelled from the spec: \<^verbatim>\<open>common::AssertGPUSupport\<close> is defined outside this file; in a
  build without device support it "fails fatally with a capability-missing error".
\<close>

definition AssertGPUSupport :: "bool \<Rightarrow> error + unit" where
  "AssertGPUSupport cuda = (if cuda then Inr () else Inl GPUSupportMissing)"

text \<open>\<^verbatim>\<open>std::to_string\<close> on an \<^verbatim>\<open>int\<close>.\<close>

fun nat_to_string :: "nat \<Rightarrow> string" where
  "nat_to_string n =
     (if n < 10 then [''0123456789'' ! n]
      else nat_to_string (n div 10) @ [''0123456789'' ! (n mod 10)])"

definition to_string :: "int \<Rightarrow> string" where
  "to_string i = (if i < 0 then CHR ''-'' # nat_to_string (nat (- i)) else nat_to_string (nat i))"

subsection \<open>Cache entries, page sources and the matrix\<close>

record Cache =
  written :: bool
  name :: string
  format :: string

text \<open>
  A page source refers to its cache entry through a shared pointer; here it holds the key
  of the entry in the registry of the matrix. \<open>obj\<close> is the identity of the source object:
  a batch iterator holds the shared pointer to its source, that is, this identity.
\<close>

record SparsePageSource =
  src_obj :: nat
  src_cache :: string
  src_missing :: real
  src_nthreads :: int
  src_n_features :: size_t
  src_n_batches :: uint32_t
  src_count :: nat              \<comment> \<open>index of the current page\<close>
  src_at_end :: bool
  src_page :: SparsePage        \<comment> \<open>the current page\<close>

record PageSourceIncMixIn =
  inc_obj :: nat
  inc_cache :: string
  inc_missing :: real
  inc_nthreads :: int
  inc_n_features :: size_t
  inc_n_batches :: uint32_t
  inc_source :: "nat option"    \<comment> \<open>the shared row-page source\<close>
  inc_count :: nat

record HistogramCuts =
  Values :: "real list"

record GradientIndexPageSource = PageSourceIncMixIn +
  gi_param :: BatchParam
  gi_cuts :: HistogramCuts
  gi_is_dense :: bool
  gi_max_bin_per_feat :: int
  gi_feature_types :: "FeatureType list"

record GHistIndexMatrix =
  cut :: HistogramCuts
  max_num_bins :: int
  rows :: "SparsePage list"

text \<open>Calls to collaborators, in the order they are made.\<close>

datatype event =
    IterReset                   \<comment> \<open>the user's reset callback\<close>
  | IterNext                    \<comment> \<open>the user's next callback\<close>
  | CacheCreated string
  | CacheErased string
  | SourceCreated string        \<comment> \<open>a page source of the given format is constructed\<close>
  | SourceReset string          \<comment> \<open>\<^verbatim>\<open>Reset()\<close> on the page source of the given format\<close>
  | Sketched int bool           \<comment> \<open>\<^verbatim>\<open>SketchOnDMatrix\<close> with max\_bin and the sorted flag\<close>
  | GHistIndexBuilt int bool    \<comment> \<open>\<^verbatim>\<open>new GHistIndexMatrix\<close>\<close>

record SparsePageDMatrix =
  self :: string                                  \<comment> \<open>the identity \<^verbatim>\<open>MakeId\<close> prints\<close>
  info :: MetaInfo
  missing :: real
  nthread :: int                                  \<comment> \<open>\<^verbatim>\<open>ctx_.nthread\<close>\<close>
  cache_prefix :: string
  n_batches :: uint32_t
  cache_info :: "string \<rightharpoonup> Cache"
  batch_param :: BatchParam
  sparse_page_source :: "SparsePageSource option"
  column_source :: "PageSourceIncMixIn option"
  sorted_column_source :: "PageSourceIncMixIn option"
  ghist_index_source :: "GradientIndexPageSource option"
  ghist_index_page :: "GHistIndexMatrix option"
  ellpack_page_source :: "nat option"
  proxy :: DMatrixProxy                           \<comment> \<open>the staging buffer\<close>
  iter_batches :: "DMatrixProxy list"             \<comment> \<open>what the user's iterator delivers after a reset\<close>
  iter_cursor :: nat                              \<comment> \<open>batches delivered since the last reset\<close>
  disk :: "string \<Rightarrow> SparsePage list"            \<comment> \<open>the row pages in each cache file\<close>
  next_obj :: nat
  trace :: "event list"


declare nat_to_string.simps [simp del]

text \<open>Page types that only tag a batch iterator here.\<close>

datatype CSCPage = CSCPage SparsePage
datatype SortedCSCPage = SortedCSCPage SparsePage
datatype EllpackPage = EllpackPage SparsePage

text \<open>
  A batch iterator holds a shared pointer to a page source (its object identity, or null),
  or, for \<^verbatim>\<open>SimpleBatchIteratorImpl\<close>, to one page held in memory.
\<close>

datatype 'page BatchIterator =
    BatchIterator "nat option"
  | SimpleBatchIteratorImpl "'page option"

subsection \<open>Failing state transformers\<close>

type_synonym 'a M = "SparsePageDMatrix \<Rightarrow> (error + 'a) \<times> SparsePageDMatrix"

definition return :: "'a \<Rightarrow> 'a M" where
  "return x s = (Inr x, s)"

definition fail :: "error \<Rightarrow> 'a M" where
  "fail err s = (Inl err, s)"

definition bindM :: "'a M \<Rightarrow> ('a \<Rightarrow> 'b M) \<Rightarrow> 'b M" where
  "bindM m f s = (case m s of (Inl err, s') \<Rightarrow> (Inl err, s') | (Inr x, s') \<Rightarrow> f x s')"

definition gets :: "(SparsePageDMatrix \<Rightarrow> 'a) \<Rightarrow> 'a M" where
  "gets f s = (Inr (f s), s)"

definition modify :: "(SparsePageDMatrix \<Rightarrow> SparsePageDMatrix) \<Rightarrow> unit M" where
  "modify f s = (Inr (), f s)"

definition CHECK :: "check \<Rightarrow> (SparsePageDMatrix \<Rightarrow> bool) \<Rightarrow> unit M" where
  "CHECK c b s = (if b s then (Inr (), s) else (Inl (CheckFailed c), s))"

definition log_event :: "event \<Rightarrow> SparsePageDMatrix \<Rightarrow> SparsePageDMatrix" where
  "log_event ev s = s\<lparr>trace := trace s @ [ev]\<rparr>"

subsection \<open>Collaborators\<close>

text \<open>
  Modelled from the spec: the user's iterator is reached through callbacks. "reset()
  restarts iteration from the first raw batch; next() either populates the staging buffer
  with the next raw batch and reports success, or reports end-of-data".
\<close>

definition iter_Reset :: "SparsePageDMatrix \<Rightarrow> SparsePageDMatrix" where
  "iter_Reset s = log_event IterReset (s\<lparr>iter_cursor := 0\<rparr>)"

definition iter_Next :: "SparsePageDMatrix \<Rightarrow> bool \<times> SparsePageDMatrix" where
  "iter_Next s =
     (if iter_cursor s < length (iter_batches s)
      then (True, log_event IterNext (s\<lparr>proxy := iter_batches s ! iter_cursor s,
                                   iter_cursor := Suc (iter_cursor s)\<rparr>))
      else (False, log_event IterNext s))"

text \<open>
  Modelled from the spec: \<^verbatim>\<open>MakeCache\<close> and \<^verbatim>\<open>MakeId\<close> are defined outside this file. The
  registry's get-or-create is "keyed by (matrix identity, format suffix, prefix): returns
  an existing descriptor or allocates a new file path and a written = false descriptor".
\<close>

definition MakeId :: "string \<Rightarrow> string \<Rightarrow> string" where
  "MakeId prefix ptr = prefix @ ''-'' @ ptr"

definition MakeCache :: "string \<Rightarrow> string M" where
  "MakeCache fmt s =
     (let nm = MakeId (cache_prefix s) (self s); k = nm @ fmt in
      case cache_info s k of
        None \<Rightarrow> (Inr k, log_event (CacheCreated k)
                   (s\<lparr>cache_info := (cache_info s)(k \<mapsto> \<lparr>written = False, name = nm, format = fmt\<rparr>)\<rparr>))
      | Some c \<Rightarrow> (Inr k, s))"

text \<open>\<^verbatim>\<open>cache_info_.at(id)\<close> and \<^verbatim>\<open>cache_info_.erase(id)\<close>.\<close>

definition cache_at :: "string \<Rightarrow> Cache M" where
  "cache_at k s = (case cache_info s k of None \<Rightarrow> (Inl OutOfRange, s) | Some c \<Rightarrow> (Inr c, s))"

definition cache_erase :: "string \<Rightarrow> SparsePageDMatrix \<Rightarrow> SparsePageDMatrix" where
  "cache_erase k s = log_event (CacheErased k) (s\<lparr>cache_info := (cache_info s)(k := None)\<rparr>)"

definition cache_written :: "SparsePageDMatrix \<Rightarrow> string \<Rightarrow> bool" where
  "cache_written s k = (case cache_info s k of None \<Rightarrow> False | Some c \<Rightarrow> written c)"

definition Commit :: "string \<Rightarrow> SparsePageDMatrix \<Rightarrow> SparsePageDMatrix" where
  "Commit k s =
     (case cache_info s k of
        None \<Rightarrow> s
      | Some c \<Rightarrow> s\<lparr>cache_info := (cache_info s)(k \<mapsto> c\<lparr>written := True\<rparr>)\<rparr>)"

text \<open>
  Modelled from the spec: the class \<^verbatim>\<open>SparsePageSource\<close> is defined outside this file. The
  primary source "reads from the external iterator adapter on a cache miss, writing each
  page to disk as it is produced on first pass; replays from disk on subsequent passes";
  \<^verbatim>\<open>reset()\<close> "rewinds to the first page"; advancing "produces the next page or signals
  end-of-sequence"; the entry's written flag "becomes true only after a full pass has
  completed writing that format to disk".

  \<open>SparsePageSource_begin\<close> puts the source on its first page: from the cache file when the
  entry is written, else from the iterator, which is reset and asked for its first batch.
\<close>

definition SparsePageSource_begin :: "SparsePageSource \<Rightarrow> SparsePageDMatrix \<Rightarrow> SparsePageDMatrix" where
  "SparsePageSource_begin src s =
     (let k = src_cache src in
      if cache_written s k then
        (case disk s k of
           [] \<Rightarrow> s\<lparr>sparse_page_source := Some (src\<lparr>src_count := 0, src_at_end := True\<rparr>)\<rparr>
         | p # ps \<Rightarrow> s\<lparr>sparse_page_source :=
                        Some (src\<lparr>src_count := 0, src_at_end := False, src_page := p\<rparr>)\<rparr>)
      else
        (case iter_Next (iter_Reset s) of
           (True, s') \<Rightarrow>
             s'\<lparr>disk := (disk s')(k := [page (proxy s')]),
                sparse_page_source :=
                  Some (src\<lparr>src_count := 0, src_at_end := False, src_page := page (proxy s')\<rparr>)\<rparr>
         | (False, s') \<Rightarrow>
             (Commit k s')\<lparr>disk := (disk s')(k := []),
                           sparse_page_source := Some (src\<lparr>src_count := 0, src_at_end := True\<rparr>)\<rparr>))"

text \<open>The constructor (the new source is the one the matrix then holds) and \<^verbatim>\<open>Reset()\<close>.\<close>

definition SparsePageSource_new :: "env \<Rightarrow> string \<Rightarrow> SparsePageDMatrix \<Rightarrow> SparsePageDMatrix" where
  "SparsePageSource_new e k s =
     SparsePageSource_begin
       \<lparr>src_obj = next_obj s, src_cache = k, src_missing = missing s,
        src_nthreads = Threads e (nthread s), src_n_features = num_col (info s),
        src_n_batches = n_batches s, src_count = 0, src_at_end = False, src_page = empty_page\<rparr>
       (log_event (SourceCreated ''.row.page'') (s\<lparr>next_obj := Suc (next_obj s)\<rparr>))"

definition SparsePageSource_Reset :: "SparsePageDMatrix \<Rightarrow> SparsePageDMatrix" where
  "SparsePageSource_Reset s =
     (case sparse_page_source s of
        None \<Rightarrow> s
      | Some src \<Rightarrow> SparsePageSource_begin src (log_event (SourceReset ''.row.page'') s))"

text \<open>\<^verbatim>\<open>operator++\<close> of the source behind a row-page batch iterator.\<close>

definition SparsePageSource_next :: "SparsePageDMatrix \<Rightarrow> SparsePageDMatrix" where
  "SparsePageSource_next s =
     (case sparse_page_source s of
        None \<Rightarrow> s
      | Some src \<Rightarrow>
          if src_at_end src then s
          else
            (let c = Suc (src_count src); k = src_cache src in
             if cache_written s k then
               (if c < length (disk s k)
                then s\<lparr>sparse_page_source := Some (src\<lparr>src_count := c, src_page := disk s k ! c\<rparr>)\<rparr>
                else s\<lparr>sparse_page_source := Some (src\<lparr>src_count := c, src_at_end := True\<rparr>)\<rparr>)
             else
               (case iter_Next s of
                  (True, s') \<Rightarrow>
                    s'\<lparr>disk := (disk s')(k := disk s' k @ [page (proxy s')]),
                       sparse_page_source :=
                         Some (src\<lparr>src_count := c, src_page := page (proxy s')\<rparr>)\<rparr>
                | (False, s') \<Rightarrow>
                    (Commit k s')\<lparr>sparse_page_source :=
                                   Some (src\<lparr>src_count := c, src_at_end := True\<rparr>)\<rparr>)))"

text \<open>\<^verbatim>\<open>AtEnd()\<close> and \<^verbatim>\<open>operator*\<close> of a row-page batch iterator.\<close>

definition AtEnd :: "SparsePageDMatrix \<Rightarrow> bool" where
  "AtEnd s = (case sparse_page_source s of None \<Rightarrow> True | Some src \<Rightarrow> src_at_end src)"

definition current_page :: "SparsePageDMatrix \<Rightarrow> SparsePage" where
  "current_page s = (case sparse_page_source s of None \<Rightarrow> empty_page | Some src \<Rightarrow> src_page src)"

text \<open>The number of steps a traversal of the row-page source still takes.\<close>

definition remaining :: "SparsePageDMatrix \<Rightarrow> nat" where
  "remaining s =
     (case sparse_page_source s of
        None \<Rightarrow> 0
      | Some src \<Rightarrow>
          if src_at_end src then 0
          else Suc (if cache_written s (src_cache src)
                    then length (disk s (src_cache src)) - src_count src
                    else length (iter_batches s) - iter_cursor s))"


text \<open>
  Reading a row-page batch set to its end, as \<^verbatim>\<open>for (auto const &page : batches)\<close> does:
  the pages seen, and the state afterwards.
\<close>

function drain :: "SparsePageDMatrix \<Rightarrow> SparsePage list \<times> SparsePageDMatrix" where
  "drain s =
     (if AtEnd s then ([], s)
      else (case drain (SparsePageSource_next s) of (ps, s') \<Rightarrow> (current_page s # ps, s')))"
  by pat_completeness auto
termination
  by (relation "measure remaining")
    (auto simp: AtEnd_def remaining_def SparsePageSource_next_def iter_Next_def log_event_def
      cache_written_def Commit_def Let_def split: option.splits if_splits)

declare drain.simps [simp del]


text \<open>
  Modelled from the spec: \<^verbatim>\<open>HostAdapterDispatch\<close> is defined outside this file. A raw
  batch's counts are "queryable via a type-erased dispatch (host representation)"; for a
  batch whose "concrete type cannot be inspected on host" the dispatch reports a type
  error through its flag and returns a default-constructed value.
\<close>

definition HostAdapterDispatch :: "DMatrixProxy \<Rightarrow> (Adapter \<Rightarrow> size_t) \<Rightarrow> size_t \<times> bool" where
  "HostAdapterDispatch p fn =
     (case adapter p of
        HostAdapter r c \<Rightarrow> (fn (HostAdapter r c), False)
      | DeviceAdapter r c \<Rightarrow> (0, True))"

text \<open>
  Modelled from the spec: derived page sources (\<^verbatim>\<open>CSCPageSource\<close>, \<^verbatim>\<open>SortedCSCPageSource\<close>,
  \<^verbatim>\<open>GradientIndexPageSource\<close>) are defined outside this file. A derived source is created
  "keyed on that cache entry and bound to the shared row-page source"; \<^verbatim>\<open>reset()\<close> "rewinds
  to the first page". Only their construction and reset are followed here.
\<close>

definition PageSourceIncMixIn_new ::
    "string \<Rightarrow> real \<Rightarrow> int \<Rightarrow> size_t \<Rightarrow> uint32_t \<Rightarrow> string \<Rightarrow> SparsePageSource option
      \<Rightarrow> PageSourceIncMixIn M" where
  "PageSourceIncMixIn_new fmt mis nthr nfeat nbat k src s =
     (Inr \<lparr>inc_obj = next_obj s, inc_cache = k, inc_missing = mis, inc_nthreads = nthr,
           inc_n_features = nfeat, inc_n_batches = nbat, inc_source = map_option src_obj src,
           inc_count = 0\<rparr>,
      log_event (SourceCreated fmt) (s\<lparr>next_obj := Suc (next_obj s)\<rparr>))"

definition GradientIndexPageSource_new ::
    "real \<Rightarrow> int \<Rightarrow> size_t \<Rightarrow> uint32_t \<Rightarrow> string \<Rightarrow> BatchParam \<Rightarrow> HistogramCuts \<Rightarrow> bool \<Rightarrow> int
      \<Rightarrow> FeatureType list \<Rightarrow> SparsePageSource option \<Rightarrow> GradientIndexPageSource M" where
  "GradientIndexPageSource_new mis nthr nfeat nbat k prm cuts dense mb ft src s =
     (Inr \<lparr>inc_obj = next_obj s, inc_cache = k, inc_missing = mis, inc_nthreads = nthr,
           inc_n_features = nfeat, inc_n_batches = nbat, inc_source = map_option src_obj src,
           inc_count = 0, gi_param = prm, gi_cuts = cuts, gi_is_dense = dense,
           gi_max_bin_per_feat = mb, gi_feature_types = ft\<rparr>,
      log_event (SourceCreated ''.gradient_index.page'') (s\<lparr>next_obj := Suc (next_obj s)\<rparr>))"

subsection \<open>The functions of the file\<close>

text \<open>Lines 18 to 38. With CUDA the two functions are only declared here; the device
  sources define them, and return the device-side counts of the batch.\<close>

definition NSamplesDevice :: "env \<Rightarrow> DMatrixProxy \<Rightarrow> error + size_t" where
  "NSamplesDevice e p =
     (if use_cuda e then Inr (NumRows (adapter p))
      else (case AssertGPUSupport (use_cuda e) of Inl err \<Rightarrow> Inl err | Inr _ \<Rightarrow> Inr 0))"

definition NFeaturesDevice :: "env \<Rightarrow> DMatrixProxy \<Rightarrow> error + size_t" where
  "NFeaturesDevice e p =
     (if use_cuda e then Inr (NumCols (adapter p))
      else (case AssertGPUSupport (use_cuda e) of Inl err \<Rightarrow> Inl err | Inr _ \<Rightarrow> Inr 0))"

text \<open>Lines 101 to 118.\<close>

definition InitializeSparsePage :: "env \<Rightarrow> unit M" where
  "InitializeSparsePage e =
     bindM (MakeCache ''.row.page'') (\<lambda>k.
     bindM (cache_at k) (\<lambda>c.
       if written c then
         bindM (CHECK SparsePageSourceSet (\<lambda>s. sparse_page_source s \<noteq> None)) (\<lambda>_.
         modify SparsePageSource_Reset)
       else
         bindM (modify (\<lambda>s. s\<lparr>sparse_page_source := None\<rparr>)) (\<lambda>_.
         bindM (cache_at k) (\<lambda>_.
         modify (SparsePageSource_new e k)))))"

text \<open>Lines 120 to 128.\<close>

definition GetRowBatchesImpl :: "env \<Rightarrow> SparsePage BatchIterator M" where
  "GetRowBatchesImpl e =
     bindM (InitializeSparsePage e) (\<lambda>_.
     gets (\<lambda>s. BatchIterator (map_option src_obj (sparse_page_source s))))"

definition GetRowBatches :: "env \<Rightarrow> SparsePage BatchIterator M" where
  "GetRowBatches e = GetRowBatchesImpl e"

text \<open>The constructor, lines 41 to 99. Its local counters:\<close>

record locals =
  l_n_batches :: uint32_t
  l_n_features :: size_t
  l_n_samples :: size_t
  l_nnz :: size_t

text \<open>The lambdas \<^verbatim>\<open>num_rows\<close> and \<^verbatim>\<open>num_cols\<close>, lines 61 to 78.\<close>

definition num_rows :: "env \<Rightarrow> DMatrixProxy \<Rightarrow> error + size_t" where
  "num_rows e p =
     (case HostAdapterDispatch p NumRows of
        (n_samples, type_error) \<Rightarrow> if type_error then NSamplesDevice e p else Inr n_samples)"

definition num_cols :: "env \<Rightarrow> DMatrixProxy \<Rightarrow> error + size_t" where
  "num_cols e p =
     (case HostAdapterDispatch p NumCols of
        (n_features, type_error) \<Rightarrow> if type_error then NFeaturesDevice e p else Inr n_features)"

text \<open>The body of the loop, lines 83 to 87.\<close>

definition ctor_body :: "env \<Rightarrow> locals \<Rightarrow> locals M" where
  "ctor_body e l s =
     (let s1 = s\<lparr>info := Extend (info s) (Info (proxy s)) False False\<rparr> in
      case num_cols e (proxy s1) of
        Inl err \<Rightarrow> (Inl err, s1)
      | Inr c \<Rightarrow>
          (case num_rows e (proxy s1) of
             Inl err \<Rightarrow> (Inl err, s1)
           | Inr r \<Rightarrow>
               (Inr (l\<lparr>l_n_features := max (l_n_features l) c,
                        l_n_samples := l_n_samples l + r,
                        l_nnz := l_nnz l + Size (data (current_page s1)),
                        l_n_batches := l_n_batches l + 1\<rparr>), s1)))"

text \<open>The loop of line 82 over the batch set \<^verbatim>\<open>GetRowBatchesImpl()\<close> returned.\<close>

function ctor_loop :: "env \<Rightarrow> locals \<Rightarrow> locals M" where
  "ctor_loop e l s =
     (if AtEnd s then (Inr l, s)
      else (case ctor_body e l s of
              (Inl err, s1) \<Rightarrow> (Inl err, s1)
            | (Inr l1, s1) \<Rightarrow> ctor_loop e l1 (SparsePageSource_next s1)))"
  by pat_completeness auto
termination
proof (relation "measure (\<lambda>(e, l, s). remaining s)", goal_cases)
  case 1
  show ?case by simp
next
  case (2 e l s x1 x2 x3)
  then have "x2 = s\<lparr>info := Extend (info s) (Info (proxy s)) False False\<rparr>"
    by (auto simp: ctor_body_def Let_def split: sum.splits)
  with 2 show ?case
    by (auto simp: AtEnd_def remaining_def SparsePageSource_next_def iter_Next_def log_event_def
        cache_written_def Commit_def Let_def split: option.splits if_splits)
qed

declare ctor_loop.simps [simp del]

definition SparsePageDMatrix_init ::
    "string \<Rightarrow> DMatrixProxy list \<Rightarrow> DMatrixProxy \<Rightarrow> real \<Rightarrow> int \<Rightarrow> string \<Rightarrow> SparsePageDMatrix" where
  "SparsePageDMatrix_init ptr iter_handle proxy_handle mis nthreads prefix =
     \<lparr>self = ptr, info = MetaInfo_init, missing = mis, nthread = nthreads,
      cache_prefix = prefix, n_batches = 0, cache_info = Map.empty,
      batch_param = BatchParam_default, sparse_page_source = None, column_source = None,
      sorted_column_source = None, ghist_index_source = None, ghist_index_page = None,
      ellpack_page_source = None, proxy = proxy_handle, iter_batches = iter_handle,
      iter_cursor = 0, disk = (\<lambda>_. []), next_obj = 0, trace = []\<rparr>"

definition SparsePageDMatrix_new ::
    "env \<Rightarrow> string \<Rightarrow> DMatrixProxy list \<Rightarrow> DMatrixProxy \<Rightarrow> real \<Rightarrow> int \<Rightarrow> string
      \<Rightarrow> (error + unit) \<times> SparsePageDMatrix" where
  "SparsePageDMatrix_new e ptr iter_handle proxy_handle mis nthreads prefix =
     (let prefix1 = (if prefix = [] then ''DMatrix'' else prefix);
          prefix2 = (if IsDistributed e then prefix1 @ ''-r'' @ to_string (GetRank e) else prefix1)
      in
      (bindM (GetRowBatchesImpl e) (\<lambda>_.
       bindM (ctor_loop e \<lparr>l_n_batches = 0, l_n_features = 0, l_n_samples = 0, l_nnz = 0\<rparr>) (\<lambda>l.
       bindM (modify iter_Reset) (\<lambda>_.
       bindM (modify (\<lambda>s. s\<lparr>n_batches := l_n_batches l\<rparr>)) (\<lambda>_.
       bindM (modify (\<lambda>s. s\<lparr>info := (info s)\<lparr>num_row := l_n_samples l\<rparr>\<rparr>)) (\<lambda>_.
       bindM (modify (\<lambda>s. s\<lparr>info := (info s)\<lparr>num_col := l_n_features l\<rparr>\<rparr>)) (\<lambda>_.
       bindM (modify (\<lambda>s. s\<lparr>info := (info s)\<lparr>num_nonzero := l_nnz l\<rparr>\<rparr>)) (\<lambda>_.
       bindM (modify (\<lambda>s. s\<lparr>info := (info s)\<lparr>num_col := Allreduce_Max e (num_col (info s))\<rparr>\<rparr>)) (\<lambda>_.
       CHECK NumColNonzero (\<lambda>s. num_col (info s) \<noteq> 0))))))))))
        (SparsePageDMatrix_init ptr iter_handle proxy_handle mis nthreads prefix2))"

text \<open>Lines 130 to 158.\<close>

definition PageSourceIncMixIn_Reset :: "string \<Rightarrow> PageSourceIncMixIn \<Rightarrow> PageSourceIncMixIn M" where
  "PageSourceIncMixIn_Reset fmt src s = (Inr (src\<lparr>inc_count := 0\<rparr>), log_event (SourceReset fmt) s)"

definition GetColumnBatches :: "env \<Rightarrow> CSCPage BatchIterator M" where
  "GetColumnBatches e =
     bindM (MakeCache ''.col.page'') (\<lambda>k.
     bindM (CHECK NumColNonzero (\<lambda>s. num_col (info s) \<noteq> 0)) (\<lambda>_.
     bindM (InitializeSparsePage e) (\<lambda>_.
     bindM (\<lambda>s. case column_source s of
                   None \<Rightarrow>
                     bindM (cache_at k) (\<lambda>_.
                     bindM (\<lambda>s. PageSourceIncMixIn_new ''.col.page'' (missing s)
                                   (Threads e (nthread s)) (num_col (info s)) (n_batches s) k
                                   (sparse_page_source s) s) (\<lambda>src.
                     modify (\<lambda>s. s\<lparr>column_source := Some src\<rparr>))) s
                 | Some src \<Rightarrow>
                     bindM (PageSourceIncMixIn_Reset ''.col.page'' src) (\<lambda>src'.
                     modify (\<lambda>s. s\<lparr>column_source := Some src'\<rparr>)) s) (\<lambda>_.
     gets (\<lambda>s. BatchIterator (map_option inc_obj (column_source s)))))))"

definition GetSortedColumnBatches :: "env \<Rightarrow> SortedCSCPage BatchIterator M" where
  "GetSortedColumnBatches e =
     bindM (MakeCache ''.sorted.col.page'') (\<lambda>k.
     bindM (CHECK NumColNonzero (\<lambda>s. num_col (info s) \<noteq> 0)) (\<lambda>_.
     bindM (InitializeSparsePage e) (\<lambda>_.
     bindM (\<lambda>s. case sorted_column_source s of
                   None \<Rightarrow>
                     bindM (cache_at k) (\<lambda>_.
                     bindM (\<lambda>s. PageSourceIncMixIn_new ''.sorted.col.page'' (missing s)
                                   (Threads e (nthread s)) (num_col (info s)) (n_batches s) k
                                   (sparse_page_source s) s) (\<lambda>src.
                     modify (\<lambda>s. s\<lparr>sorted_column_source := Some src\<rparr>))) s
                 | Some src \<Rightarrow>
                     bindM (PageSourceIncMixIn_Reset ''.sorted.col.page'' src) (\<lambda>src'.
                     modify (\<lambda>s. s\<lparr>sorted_column_source := Some src'\<rparr>)) s) (\<lambda>_.
     gets (\<lambda>s. BatchIterator (map_option inc_obj (sorted_column_source s)))))))"


text \<open>
  Modelled from the spec: \<^verbatim>\<open>common::SketchOnDMatrix\<close> and the constructor of
  \<^verbatim>\<open>GHistIndexMatrix\<close> are defined outside this file. The sketch is there to "compute
  global bin-boundary cuts over the dataset (using sorted-order statistics when regen is
  forced, approximate order otherwise)": it reads the row batches of the matrix from the first to
  the last; the values are the collaborator's. The in-memory index "is built once as a
  single full-dataset page held in memory": it computes the cuts and then reads the row
  batches again, keeping all of them.
\<close>

definition SketchOnDMatrix :: "env \<Rightarrow> int \<Rightarrow> bool \<Rightarrow> real list \<Rightarrow> HistogramCuts M" where
  "SketchOnDMatrix e mb sorted_sketch hs =
     bindM (modify (log_event (Sketched mb sorted_sketch))) (\<lambda>_.
     bindM (GetRowBatches e) (\<lambda>_.
     (\<lambda>s. case drain s of (ps, s') \<Rightarrow> (Inr \<lparr>Values = sketch e ps mb sorted_sketch hs\<rparr>, s'))))"

definition GHistIndexMatrix_new :: "env \<Rightarrow> int \<Rightarrow> bool \<Rightarrow> GHistIndexMatrix M" where
  "GHistIndexMatrix_new e mb sorted_sketch =
     bindM (modify (log_event (GHistIndexBuilt mb sorted_sketch))) (\<lambda>_.
     bindM (SketchOnDMatrix e mb sorted_sketch []) (\<lambda>cuts.
     bindM (GetRowBatches e) (\<lambda>_.
     (\<lambda>s. case drain s of (ps, s') \<Rightarrow> (Inr \<lparr>cut = cuts, max_num_bins = mb, rows = ps\<rparr>, s')))))"

text \<open>Lines 160 to 201.\<close>

definition GetGradientIndex :: "env \<Rightarrow> BatchParam \<Rightarrow> GHistIndexMatrix BatchIterator M" where
  "GetGradientIndex e prm =
     bindM (CHECK MaxBinAtLeast2 (\<lambda>_. 2 \<le> max_bin prm)) (\<lambda>_.
     if hess prm = [] \<and> \<not> regen prm then
       bindM (\<lambda>s.
         if ghist_index_page s = None \<or>
            (BatchParam_ne prm (batch_param s) \<and> BatchParam_ne prm BatchParam_default)
         then
           bindM (InitializeSparsePage e) (\<lambda>_.
           bindM (GHistIndexMatrix_new e (max_bin prm) (regen prm)) (\<lambda>g.
           bindM (modify (\<lambda>s. s\<lparr>ghist_index_page := Some g\<rparr>)) (\<lambda>_.
           bindM (InitializeSparsePage e) (\<lambda>_.
           modify (\<lambda>s. s\<lparr>batch_param := prm\<rparr>))))) s
         else return () s) (\<lambda>_.
       gets (\<lambda>s. SimpleBatchIteratorImpl (ghist_index_page s)))
     else
       bindM (MakeCache ''.gradient_index.page'') (\<lambda>k.
       bindM (InitializeSparsePage e) (\<lambda>_.
       bindM (cache_at k) (\<lambda>c.
       bindM (\<lambda>s.
         if \<not> written c \<or>
            (BatchParam_ne (batch_param s) prm \<and> BatchParam_ne prm BatchParam_default) \<or>
            regen prm
         then
           bindM (modify (cache_erase k)) (\<lambda>_.
           bindM (MakeCache ''.gradient_index.page'') (\<lambda>_.
           bindM (SketchOnDMatrix e (max_bin prm) (regen prm) (hess prm)) (\<lambda>cuts.
           bindM (InitializeSparsePage e) (\<lambda>_.
           bindM (modify (\<lambda>s. s\<lparr>batch_param := prm\<rparr>)) (\<lambda>_.
           bindM (modify (\<lambda>s. s\<lparr>ghist_index_source := None\<rparr>)) (\<lambda>_.
           bindM (CHECK CutsNonEmpty (\<lambda>_. Size (Values cuts) \<noteq> 0)) (\<lambda>_.
           bindM (cache_at k) (\<lambda>_.
           bindM (\<lambda>s. GradientIndexPageSource_new (missing s) (Threads e (nthread s))
                         (num_col (info s)) (n_batches s) k prm cuts (IsDense e (info s))
                         (max_bin prm) (feature_types (info s)) (sparse_page_source s) s) (\<lambda>src.
           modify (\<lambda>s. s\<lparr>ghist_index_source := Some src\<rparr>)))))))))) s
         else
           bindM (CHECK GHistIndexSourceSet (\<lambda>s. ghist_index_source s \<noteq> None)) (\<lambda>_.
           modify (\<lambda>s. log_event (SourceReset ''.gradient_index.page'')
                        (s\<lparr>ghist_index_source :=
                             map_option (\<lambda>src. src\<lparr>inc_count := 0\<rparr>) (ghist_index_source s)\<rparr>))) s)
       (\<lambda>_.
       gets (\<lambda>s. BatchIterator (map_option inc_obj (ghist_index_source s))))))))"

text \<open>Lines 203 to 209: the definition compiled when \<^verbatim>\<open>XGBOOST_USE_CUDA\<close> is not defined.\<close>

definition GetEllpackBatches :: "BatchParam \<Rightarrow> EllpackPage BatchIterator M" where
  "GetEllpackBatches prm s =
     (case AssertGPUSupport False of
        Inl err \<Rightarrow> (Inl err, s)
      | Inr _ \<Rightarrow> (Inr (BatchIterator (ellpack_page_source s)), s))"

section \<open>Vocabulary of the proofs\<close>

text \<open>\<open>keeps I m\<close>: the property \<open>I\<close> of the state survives \<open>m\<close>, whether \<open>m\<close> fails or not.\<close>

definition keeps :: "(SparsePageDMatrix \<Rightarrow> bool) \<Rightarrow> 'a M \<Rightarrow> bool" where
  "keeps I m = (\<forall>s. I s \<longrightarrow> I (snd (m s)))"

text \<open>A raw batch whose counts the constructor can obtain: on the host, or in a CUDA build.\<close>

definition queryable :: "env \<Rightarrow> DMatrixProxy \<Rightarrow> bool" where
  "queryable e b = (is_HostAdapter (adapter b) \<or> use_cuda e)"

definition count_batch :: "SparsePageDMatrix \<Rightarrow> locals \<Rightarrow> locals" where
  "count_batch s l =
     l\<lparr>l_n_features := max (l_n_features l) (NumCols (adapter (proxy s))),
       l_n_samples := l_n_samples l + NumRows (adapter (proxy s)),
       l_nnz := l_nnz l + Size (data (current_page s)),
       l_n_batches := l_n_batches l + 1\<rparr>"

text \<open>
  The states of the first pass of the row-page source: on batch \<open>j\<close> of the iterator, with the
  pages of the batches up to \<open>j\<close> in the cache file; and after the pass, the entry written.
\<close>

definition in_pass :: "string \<Rightarrow> DMatrixProxy list \<Rightarrow> nat \<Rightarrow> SparsePageDMatrix \<Rightarrow> bool" where
  "in_pass k bs j s =
     (iter_batches s = bs \<and> iter_cursor s = Suc j \<and> j < length bs \<and> proxy s = bs ! j \<and>
      (case cache_info s k of None \<Rightarrow> False | Some c \<Rightarrow> \<not> written c) \<and>
      (case sparse_page_source s of
         None \<Rightarrow> False
       | Some src \<Rightarrow> src_cache src = k \<and> \<not> src_at_end src \<and> src_page src = page (bs ! j)) \<and>
      disk s k = map page (take (Suc j) bs))"

definition pass_done :: "string \<Rightarrow> DMatrixProxy list \<Rightarrow> SparsePageDMatrix \<Rightarrow> bool" where
  "pass_done k bs s =
     (iter_batches s = bs \<and>
      (case cache_info s k of None \<Rightarrow> False | Some c \<Rightarrow> written c) \<and>
      (case sparse_page_source s of
         None \<Rightarrow> False
       | Some src \<Rightarrow> src_cache src = k \<and> src_at_end src) \<and>
      disk s k = map page bs)"

text \<open>The local counters of the constructor after a loop over the given batches.\<close>

fun tally :: "DMatrixProxy list \<Rightarrow> locals \<Rightarrow> locals" where
  "tally [] l = l"
| "tally (b # bs) l =
     tally bs (l\<lparr>l_n_features := max (l_n_features l) (NumCols (adapter b)),
                 l_n_samples := l_n_samples l + NumRows (adapter b),
                 l_nnz := l_nnz l + Size (data (page b)),
                 l_n_batches := l_n_batches l + 1\<rparr>)"

text \<open>The key of the row-page cache entry, and the state the constructor hands over.\<close>

definition row_key :: "SparsePageDMatrix \<Rightarrow> string" where
  "row_key s = MakeId (cache_prefix s) (self s) @ ''.row.page''"

definition ctor_prefix :: "env \<Rightarrow> string \<Rightarrow> string" where
  "ctor_prefix e pfx =
     (let prefix1 = (if pfx = [] then ''DMatrix'' else pfx)
      in if IsDistributed e then prefix1 @ ''-r'' @ to_string (GetRank e) else prefix1)"

definition ctor_finish :: "env \<Rightarrow> locals \<Rightarrow> SparsePageDMatrix \<Rightarrow> SparsePageDMatrix" where
  "ctor_finish e l s =
     (iter_Reset s)\<lparr>n_batches := l_n_batches l,
                    info := (info s)\<lparr>num_row := l_n_samples l,
                                     num_nonzero := l_nnz l,
                                     num_col := Allreduce_Max e (l_n_features l)\<rparr>\<rparr>"

definition l0 :: locals where
  "l0 = \<lparr>l_n_batches = 0, l_n_features = 0, l_n_samples = 0, l_nnz = 0\<rparr>"

text \<open>
  The state of a constructed matrix, as far as the row pages go: the row-page cache entry is
  fully written and the matrix holds a row-page source bound to it. The constructor
  establishes it (lemma \<open>constructed_row_ready\<close>) and every request keeps it (lemma
  \<open>row_ready_invariant\<close>).
\<close>

definition row_ready :: "SparsePageDMatrix \<Rightarrow> bool" where
  "row_ready s =
     (cache_written s (row_key s) \<and>
      (case sparse_page_source s of None \<Rightarrow> False | Some src \<Rightarrow> src_cache src = row_key s))"

text \<open>A row-page source put on page \<open>j\<close> of the cache file \<open>f\<close> (at its end from \<open>length f\<close> on).\<close>

definition at_pos :: "SparsePage list \<Rightarrow> nat \<Rightarrow> SparsePageSource \<Rightarrow> SparsePageSource" where
  "at_pos f j src =
     (if j < length f then src\<lparr>src_count := j, src_at_end := False, src_page := f ! j\<rparr>
      else src\<lparr>src_count := length f, src_at_end := True,
               src_page := (if f = [] then src_page src else last f)\<rparr>)"

text \<open>A build without CUDA on a single worker, and three host batches of 100, 150 and 50 rows.\<close>

definition ex_env :: env where
  "ex_env = \<lparr>use_cuda = False, IsDistributed = False, GetRank = 0, peer_num_col = [],
              Threads = (\<lambda>n. n), IsDense = (\<lambda>_. False), sketch = (\<lambda>ps mb so hs. [0])\<rparr>"

definition ex_batch :: "nat \<Rightarrow> nat \<Rightarrow> nat \<Rightarrow> DMatrixProxy" where
  "ex_batch r c z =
     \<lparr>adapter = HostAdapter (of_nat r) (of_nat c), Info = MetaInfo_init,
      page = \<lparr>offset = [0, of_nat z], data = replicate z (0, 1)\<rparr>\<rparr>"

definition ex_device_batch :: DMatrixProxy where
  "ex_device_batch =
     \<lparr>adapter = DeviceAdapter 2 3, Info = MetaInfo_init, page = \<lparr>offset = [0, 1], data = [(0, 1)]\<rparr>\<rparr>"

definition ex_batches :: "DMatrixProxy list" where
  "ex_batches = [ex_batch 100 20 3, ex_batch 150 20 2, ex_batch 50 20 4]"

definition ex_matrix :: SparsePageDMatrix where
  "ex_matrix = snd (SparsePageDMatrix_new ex_env ''m'' ex_batches (ex_batch 0 0 0) 0 1 [])"

text \<open>The constructions and resets of page sources in the log.\<close>

definition source_events :: "SparsePageDMatrix \<Rightarrow> event list" where
  "source_events s =
     filter (\<lambda>ev. case ev of SourceCreated _ \<Rightarrow> True | SourceReset _ \<Rightarrow> True | _ \<Rightarrow> False) (trace s)"

definition ex_empty_matrix :: SparsePageDMatrix where
  "ex_empty_matrix = snd (SparsePageDMatrix_new ex_env ''m'' [ex_batch 2 0 0] (ex_batch 0 0 0) 0 1 [])"

text \<open>
  The only change a request makes to the row pages of a constructed matrix: the row-page
  source is put on page \<open>j\<close> of its cache file, and the calls \<open>t\<close> are logged.
\<close>

definition reposition :: "nat \<Rightarrow> event list \<Rightarrow> SparsePageDMatrix \<Rightarrow> SparsePageDMatrix" where
  "reposition j t s =
     s\<lparr>sparse_page_source := map_option (at_pos (disk s (row_key s)) j) (sparse_page_source s),
       trace := trace s @ t\<rparr>"

definition row_pages :: "SparsePageDMatrix \<Rightarrow> SparsePage list" where
  "row_pages s = disk s (row_key s)"

definition built_index :: "env \<Rightarrow> int \<Rightarrow> bool \<Rightarrow> SparsePageDMatrix \<Rightarrow> GHistIndexMatrix" where
  "built_index e mb so s =
     \<lparr>cut = \<lparr>Values = sketch e (row_pages s) mb so []\<rparr>, max_num_bins = mb, rows = row_pages s\<rparr>"

text \<open>
  The condition of line 165 (with the regeneration flag, which is off in that branch), and the
  number of times a single-page histogram index has been built.
\<close>

definition in_memory_rebuild :: "BatchParam \<Rightarrow> SparsePageDMatrix \<Rightarrow> bool" where
  "in_memory_rebuild prm s =
     (ghist_index_page s = None \<or>
      (BatchParam_ne prm (batch_param s) \<and> BatchParam_ne prm BatchParam_default) \<or>
      regen prm)"

definition builds :: "SparsePageDMatrix \<Rightarrow> nat" where
  "builds s = length (filter (\<lambda>ev. case ev of GHistIndexBuilt _ _ \<Rightarrow> True | _ \<Rightarrow> False) (trace s))"

definition ex_param :: "int \<Rightarrow> BatchParam" where
  "ex_param mb = \<lparr>max_bin = mb, hess = [], regen = False\<rparr>"

text \<open>
  The histogram-index cache entry: its key, the fresh entry, and the states
  \<^verbatim>\<open>GetGradientIndex\<close> passes through on its on-disk branch.
\<close>

definition gi_key :: "SparsePageDMatrix \<Rightarrow> string" where
  "gi_key s = MakeId (cache_prefix s) (self s) @ ''.gradient_index.page''"

definition fresh_gi_cache :: "SparsePageDMatrix \<Rightarrow> Cache" where
  "fresh_gi_cache s =
     \<lparr>written = False, name = MakeId (cache_prefix s) (self s), format = ''.gradient_index.page''\<rparr>"

definition put_cache :: "event list \<Rightarrow> SparsePageDMatrix \<Rightarrow> SparsePageDMatrix" where
  "put_cache t s =
     s\<lparr>cache_info := (cache_info s)(gi_key s \<mapsto> fresh_gi_cache s), trace := trace s @ t\<rparr>"

definition new_gi_source ::
    "env \<Rightarrow> BatchParam \<Rightarrow> SparsePageDMatrix \<Rightarrow> GradientIndexPageSource" where
  "new_gi_source e prm s =
     \<lparr>inc_obj = next_obj s, inc_cache = gi_key s, inc_missing = missing s,
      inc_nthreads = Threads e (nthread s), inc_n_features = num_col (info s),
      inc_n_batches = n_batches s, inc_source = map_option src_obj (sparse_page_source s),
      inc_count = 0, gi_param = prm,
      gi_cuts = \<lparr>Values = sketch e (row_pages s) (max_bin prm) (regen prm) (hess prm)\<rparr>,
      gi_is_dense = IsDense e (info s), gi_max_bin_per_feat = max_bin prm,
      gi_feature_types = feature_types (info s)\<rparr>"

definition gi_rebuilt :: "env \<Rightarrow> BatchParam \<Rightarrow> SparsePageDMatrix \<Rightarrow> SparsePageDMatrix" where
  "gi_rebuilt e prm s =
     (reposition 0
        [Sketched (max_bin prm) (regen prm), SourceReset ''.row.page'', SourceReset ''.row.page'',
         SourceCreated ''.gradient_index.page'']
        (put_cache [CacheErased (gi_key s), CacheCreated (gi_key s)] s))
       \<lparr>batch_param := prm, next_obj := Suc (next_obj s),
        ghist_index_source := Some (new_gi_source e prm s)\<rparr>"

definition gi_rebuild_failed :: "env \<Rightarrow> BatchParam \<Rightarrow> SparsePageDMatrix \<Rightarrow> SparsePageDMatrix" where
  "gi_rebuild_failed e prm s =
     (reposition 0
        [Sketched (max_bin prm) (regen prm), SourceReset ''.row.page'', SourceReset ''.row.page'']
        (put_cache [CacheErased (gi_key s), CacheCreated (gi_key s)] s))
       \<lparr>batch_param := prm, ghist_index_source := None\<rparr>"

definition gi_lookup :: "SparsePageDMatrix \<Rightarrow> SparsePageDMatrix" where
  "gi_lookup s =
     (case cache_info s (gi_key s) of
        None \<Rightarrow> put_cache [CacheCreated (gi_key s)] s
      | Some c \<Rightarrow> s)"

text \<open>
  The condition of line 178, in terms of the registry before the call (where the entry may
  still be missing).
\<close>

definition on_disk_rebuild :: "BatchParam \<Rightarrow> SparsePageDMatrix \<Rightarrow> bool" where
  "on_disk_rebuild prm s =
     (cache_info s (gi_key s) = None \<or> \<not> cache_written s (gi_key s) \<or>
      BatchParam_ne (batch_param s) prm \<or> regen prm)"

definition gi_entered :: "SparsePageDMatrix \<Rightarrow> SparsePageDMatrix" where
  "gi_entered s = reposition 0 [SourceReset ''.row.page''] (gi_lookup s)"

definition ex_hess_param :: BatchParam where
  "ex_hess_param = \<lparr>max_bin = 256, hess = [1], regen = False\<rparr>"

definition ex_indexed :: SparsePageDMatrix where
  "ex_indexed = snd (GetGradientIndex ex_env ex_hess_param ex_matrix)"

definition ex_written :: SparsePageDMatrix where
  "ex_written = Commit (gi_key ex_indexed) ex_indexed"

definition looked_up :: "string \<Rightarrow> SparsePageDMatrix \<Rightarrow> SparsePageDMatrix" where
  "looked_up fmt s = snd (MakeCache fmt s)"

definition cache_key :: "string \<Rightarrow> SparsePageDMatrix \<Rightarrow> string" where
  "cache_key fmt s = MakeId (cache_prefix s) (self s) @ fmt"

text \<open>The number of calls to the user's callbacks in the log.\<close>

definition iter_calls :: "SparsePageDMatrix \<Rightarrow> nat" where
  "iter_calls s = length (filter (\<lambda>ev. ev = IterReset \<or> ev = IterNext) (trace s))"

definition col_entered :: "string \<Rightarrow> SparsePageDMatrix \<Rightarrow> SparsePageDMatrix" where
  "col_entered fmt s = reposition 0 [SourceReset ''.row.page''] (looked_up fmt s)"

definition ex_col :: SparsePageDMatrix where
  "ex_col = Commit (cache_key ''.col.page'' ex_matrix) (snd (GetColumnBatches ex_env ex_matrix))"

definition ex_sorted :: SparsePageDMatrix where
  "ex_sorted =
     Commit (cache_key ''.sorted.col.page'' ex_matrix)
       (snd (GetSortedColumnBatches ex_env ex_matrix))"

definition ex_regen_param :: BatchParam where
  "ex_regen_param = \<lparr>max_bin = 256, hess = [1], regen = True\<rparr>"

text \<open>
  What a request may do to the row pages of a matrix whose row-page cache is written. The log
  it appends holds no call to the user's iterator and no construction of a row-page source
  (\<open>quiet\<close>); the row-page source is the same object, and the cache files, the iterator and
  the staging proxy are as before (\<open>row_frame\<close>); the row-page entry is still written and the
  source still bound to it.
\<close>

definition quiet :: "event list \<Rightarrow> bool" where
  "quiet t = (IterReset \<notin> set t \<and> IterNext \<notin> set t \<and> SourceCreated ''.row.page'' \<notin> set t)"

definition row_sources_created :: "SparsePageDMatrix \<Rightarrow> nat" where
  "row_sources_created s = length (filter (\<lambda>ev. ev = SourceCreated ''.row.page'') (trace s))"

definition row_frame :: "SparsePageDMatrix \<Rightarrow> SparsePageDMatrix \<Rightarrow> bool" where
  "row_frame s s' =
     (map_option src_obj (sparse_page_source s') = map_option src_obj (sparse_page_source s) \<and>
      disk s' = disk s \<and> iter_batches s' = iter_batches s \<and> iter_cursor s' = iter_cursor s \<and>
      proxy s' = proxy s)"

definition replays_only :: "SparsePageDMatrix \<Rightarrow> SparsePageDMatrix \<Rightarrow> bool" where
  "replays_only s s' =
     (iter_calls s' = iter_calls s \<and> row_sources_created s' = row_sources_created s \<and>
      row_frame s s' \<and> row_ready s')"

section \<open>Properties\<close>

subsection \<open>Every step of a traversal brings its end nearer\<close>

lemma remaining_next: "\<not> AtEnd s \<Longrightarrow> remaining (SparsePageSource_next s) < remaining s"
  by (auto simp: AtEnd_def remaining_def SparsePageSource_next_def iter_Next_def log_event_def
      cache_written_def Commit_def Let_def split: option.splits if_splits)

lemma ctor_body_state:
  "ctor_body e l s = (r, s1) \<Longrightarrow> s1 = s\<lparr>info := Extend (info s) (Info (proxy s)) False False\<rparr>"
  by (auto simp: ctor_body_def Let_def split: sum.splits)

lemma remaining_info_update [simp]: "remaining (s\<lparr>info := i\<rparr>) = remaining s"
  by (simp add: remaining_def cache_written_def split: option.splits)

lemma AtEnd_info_update [simp]: "AtEnd (s\<lparr>info := i\<rparr>) = AtEnd s"
  by (simp add: AtEnd_def)

lemma SparsePageSource_next_info_update:
  "SparsePageSource_next (s\<lparr>info := i\<rparr>) = (SparsePageSource_next s)\<lparr>info := i\<rparr>"
  by (simp add: SparsePageSource_next_def iter_Next_def log_event_def cache_written_def Commit_def
      Let_def split: option.splits)

subsection \<open>The requests leave the dataset metadata alone\<close>

lemma keepsD: "keeps I m \<Longrightarrow> I s \<Longrightarrow> I (snd (m s))"
  by (simp add: keeps_def)

lemma keeps_return: "keeps I (return x)"
  by (simp add: keeps_def return_def)

lemma keeps_fail: "keeps I (fail x)"
  by (simp add: keeps_def fail_def)

lemma keeps_gets: "keeps I (gets f)"
  by (simp add: keeps_def gets_def)

lemma keeps_CHECK: "keeps I (CHECK c b)"
  by (simp add: keeps_def CHECK_def)

lemma keeps_cache_at: "keeps I (cache_at k)"
  by (simp add: keeps_def cache_at_def split: option.splits)

lemma keeps_modify: "(\<And>s. I s \<Longrightarrow> I (f s)) \<Longrightarrow> keeps I (modify f)"
  by (simp add: keeps_def modify_def)

lemma keeps_bindM: "keeps I m \<Longrightarrow> (\<And>x. keeps I (f x)) \<Longrightarrow> keeps I (bindM m f)"
  by (auto simp: keeps_def bindM_def split: prod.splits sum.splits)

lemma keeps_if: "keeps I a \<Longrightarrow> keeps I b \<Longrightarrow> keeps I (if c then a else b)"
  by simp

lemma keeps_state: "(\<And>t. keeps I (F t)) \<Longrightarrow> keeps I (\<lambda>s. F s s)"
  by (simp add: keeps_def)

lemma keeps_drain:
  "(\<And>s. I s \<Longrightarrow> I (snd (drain s))) \<Longrightarrow> keeps I (\<lambda>s. case drain s of (ps, s') \<Rightarrow> (Inr (g ps), s'))"
  by (auto simp: keeps_def split: prod.splits) (metis snd_conv)

lemma info_log [simp]: "info (log_event ev s) = info s"
  by (simp add: log_event_def)

lemma info_iter_Reset [simp]: "info (iter_Reset s) = info s"
  by (simp add: iter_Reset_def)

lemma info_iter_Next [simp]: "info (snd (iter_Next s)) = info s"
  by (simp add: iter_Next_def)

lemma info_Commit [simp]: "info (Commit k s) = info s"
  by (simp add: Commit_def split: option.splits)

lemma info_cache_erase [simp]: "info (cache_erase k s) = info s"
  by (simp add: cache_erase_def)

lemma info_begin [simp]: "info (SparsePageSource_begin src s) = info s"
  by (auto simp: SparsePageSource_begin_def iter_Next_def iter_Reset_def Let_def
      split: list.splits)

lemma info_new [simp]: "info (SparsePageSource_new e k s) = info s"
  by (simp add: SparsePageSource_new_def)

lemma info_Reset [simp]: "info (SparsePageSource_Reset s) = info s"
  by (simp add: SparsePageSource_Reset_def split: option.splits)

lemma info_next [simp]: "info (SparsePageSource_next s) = info s"
  by (auto simp: SparsePageSource_next_def iter_Next_def Let_def split: option.splits)

lemma info_drain [simp]: "info (snd (drain s)) = info s"
proof (induction s rule: drain.induct)
  case (1 s)
  show ?case
  proof (cases "AtEnd s")
    case True
    then show ?thesis by (simp add: drain.simps)
  next
    case False
    with 1 show ?thesis
      by (subst drain.simps) (auto split: prod.splits)
  qed
qed

lemma keeps_info_MakeCache: "keeps (\<lambda>s. info s = i) (MakeCache fmt)"
  by (simp add: keeps_def MakeCache_def Let_def split: option.splits)

lemma keeps_info_InitializeSparsePage: "keeps (\<lambda>s. info s = i) (InitializeSparsePage e)"
  unfolding InitializeSparsePage_def
  by (intro keeps_bindM keeps_if keeps_modify keeps_cache_at keeps_CHECK keeps_info_MakeCache)
     simp_all

lemma keeps_info_GetRowBatches: "keeps (\<lambda>s. info s = i) (GetRowBatches e)"
  unfolding GetRowBatches_def GetRowBatchesImpl_def
  by (intro keeps_bindM keeps_gets keeps_info_InitializeSparsePage)

lemma keeps_info_SketchOnDMatrix: "keeps (\<lambda>s. info s = i) (SketchOnDMatrix e mb so hs)"
  unfolding SketchOnDMatrix_def
  by (intro keeps_bindM keeps_modify keeps_drain keeps_info_GetRowBatches) simp_all

lemma keeps_info_GHistIndexMatrix_new: "keeps (\<lambda>s. info s = i) (GHistIndexMatrix_new e mb so)"
  unfolding GHistIndexMatrix_new_def
  by (intro keeps_bindM keeps_modify keeps_drain keeps_info_GetRowBatches
      keeps_info_SketchOnDMatrix) simp_all

lemma keeps_info_inc_new:
  "keeps (\<lambda>s. info s = i) (\<lambda>s. PageSourceIncMixIn_new fmt (a s) (b s) (c s) (d s) k (src s) s)"
  by (simp add: keeps_def PageSourceIncMixIn_new_def)

lemma keeps_info_inc_Reset: "keeps (\<lambda>s. info s = i) (PageSourceIncMixIn_Reset fmt src)"
  by (simp add: keeps_def PageSourceIncMixIn_Reset_def)

lemma keeps_info_gi_new:
  "keeps (\<lambda>s. info s = i)
     (\<lambda>s. GradientIndexPageSource_new (a s) (b s) (c s) (d s) k p cu (de s) mb (ft s) (src s) s)"
  by (simp add: keeps_def GradientIndexPageSource_new_def)

lemma keeps_case_option:
  "keeps I a \<Longrightarrow> (\<And>x. keeps I (b x)) \<Longrightarrow> keeps I (\<lambda>s. case v s of None \<Rightarrow> a s | Some x \<Rightarrow> b x s)"
  by (auto simp: keeps_def split: option.splits)

lemma keeps_if_state:
  "keeps I a \<Longrightarrow> keeps I b \<Longrightarrow> keeps I (\<lambda>s. if c s then a s else b s)"
  by (auto simp: keeps_def)

lemma keeps_info_GetColumnBatches: "keeps (\<lambda>s. info s = i) (GetColumnBatches e)"
  unfolding GetColumnBatches_def
  apply (intro keeps_bindM keeps_gets keeps_CHECK keeps_info_MakeCache
      keeps_info_InitializeSparsePage)
  apply (rule keeps_case_option)
   apply (intro keeps_bindM keeps_cache_at keeps_modify keeps_info_inc_new)
   apply simp
  apply (intro keeps_bindM keeps_modify keeps_info_inc_Reset)
  apply simp
  done

lemma keeps_info_GetSortedColumnBatches: "keeps (\<lambda>s. info s = i) (GetSortedColumnBatches e)"
  unfolding GetSortedColumnBatches_def
  apply (intro keeps_bindM keeps_gets keeps_CHECK keeps_info_MakeCache
      keeps_info_InitializeSparsePage)
  apply (rule keeps_case_option)
   apply (intro keeps_bindM keeps_cache_at keeps_modify keeps_info_inc_new)
   apply simp
  apply (intro keeps_bindM keeps_modify keeps_info_inc_Reset)
  apply simp
  done

lemma keeps_info_GetGradientIndex: "keeps (\<lambda>s. info s = i) (GetGradientIndex e prm)"
  unfolding GetGradientIndex_def
  apply (intro keeps_bindM keeps_CHECK keeps_if keeps_gets keeps_info_MakeCache
      keeps_info_InitializeSparsePage keeps_cache_at)
   apply (rule keeps_if_state)
    apply (intro keeps_bindM keeps_modify keeps_info_InitializeSparsePage
      keeps_info_GHistIndexMatrix_new)
     apply simp
    apply simp
   apply (rule keeps_return)
  apply (rule keeps_if_state)
   apply (intro keeps_bindM keeps_modify keeps_CHECK keeps_cache_at keeps_info_MakeCache
      keeps_info_InitializeSparsePage keeps_info_SketchOnDMatrix keeps_info_gi_new)
      apply simp_all
  apply (intro keeps_bindM keeps_modify keeps_CHECK)
  apply simp
  done

text \<open>
  Claim C9. None of "get row batches", "get column batches", "get sorted column batches" and
  "get histogram-index batches" changes the dataset metadata (row, column and nonzero counts,
  feature types), whether the call returns its batch iterator or fails.
\<close>

theorem batch_retrieval_keeps_metadata:
  "info (snd (GetRowBatches e s)) = info s \<and>
   info (snd (GetColumnBatches e s)) = info s \<and>
   info (snd (GetSortedColumnBatches e s)) = info s \<and>
   info (snd (GetGradientIndex e prm s)) = info s"
  using keeps_info_GetRowBatches [of "info s" e] keeps_info_GetColumnBatches [of "info s" e]
    keeps_info_GetSortedColumnBatches [of "info s" e]
    keeps_info_GetGradientIndex [of "info s" e prm]
  by (simp add: keeps_def)

subsection \<open>The pass of the constructor over the iterator\<close>

lemma num_rows_eq:
  "num_rows e b = (if is_HostAdapter (adapter b) \<or> use_cuda e then Inr (NumRows (adapter b))
                   else Inl GPUSupportMissing)"
  by (cases "adapter b")
     (simp_all add: num_rows_def HostAdapterDispatch_def NSamplesDevice_def AssertGPUSupport_def)

lemma num_cols_eq:
  "num_cols e b = (if is_HostAdapter (adapter b) \<or> use_cuda e then Inr (NumCols (adapter b))
                   else Inl GPUSupportMissing)"
  by (cases "adapter b")
     (simp_all add: num_cols_def HostAdapterDispatch_def NFeaturesDevice_def AssertGPUSupport_def)

lemma current_page_info_update [simp]: "current_page (s\<lparr>info := i\<rparr>) = current_page s"
  by (simp add: current_page_def)

lemma ctor_body_eq:
  "ctor_body e l s =
     (if queryable e (proxy s)
      then (Inr (count_batch s l), s\<lparr>info := Extend (info s) (Info (proxy s)) False False\<rparr>)
      else (Inl GPUSupportMissing, s\<lparr>info := Extend (info s) (Info (proxy s)) False False\<rparr>))"
  by (simp add: ctor_body_def num_rows_eq num_cols_eq queryable_def count_batch_def Let_def)

lemma in_pass_not_AtEnd: "in_pass k bs j s \<Longrightarrow> \<not> AtEnd s"
  by (auto simp: in_pass_def AtEnd_def split: option.splits)

lemma pass_done_AtEnd: "pass_done k bs s \<Longrightarrow> AtEnd s"
  by (auto simp: pass_done_def AtEnd_def split: option.splits)

lemma in_pass_info_update [simp]: "in_pass k bs j (s\<lparr>info := i\<rparr>) = in_pass k bs j s"
  by (simp add: in_pass_def)

lemma in_pass_next:
  assumes "in_pass k bs j s"
  shows "if Suc j < length bs then in_pass k bs (Suc j) (SparsePageSource_next s)
         else pass_done k bs (SparsePageSource_next s)"
  using assms
  by (auto simp: in_pass_def pass_done_def SparsePageSource_next_def iter_Next_def log_event_def
      cache_written_def Commit_def Let_def take_Suc_conv_app_nth
      split: option.splits)

lemma in_pass_next_frame:
  assumes "in_pass k bs j s"
  shows "self (SparsePageSource_next s) = self s \<and>
         cache_prefix (SparsePageSource_next s) = cache_prefix s"
  using assms
  by (auto simp: in_pass_def SparsePageSource_next_def iter_Next_def log_event_def
      cache_written_def Commit_def Let_def split: option.splits)

lemma in_pass_current:
  "in_pass k bs j s \<Longrightarrow> current_page s = page (bs ! j) \<and> proxy s = bs ! j"
  by (auto simp: in_pass_def current_page_def split: option.splits)

lemma pass_done_info_update [simp]: "pass_done k bs (s\<lparr>info := i\<rparr>) = pass_done k bs s"
  by (simp add: pass_done_def)

lemma in_pass_facts:
  assumes "in_pass k bs j s"
  shows "j < length bs" and "proxy s = bs ! j" and "current_page s = page (bs ! j)"
  using assms by (simp_all add: in_pass_def current_page_def split: option.splits)

lemma ctor_loop_fail:
  assumes "\<not> AtEnd s" and "\<not> queryable e (proxy s)"
  shows "ctor_loop e l s =
           (Inl GPUSupportMissing, s\<lparr>info := Extend (info s) (Info (proxy s)) False False\<rparr>)"
  using assms by (subst ctor_loop.simps) (simp add: ctor_body_eq)

lemma ctor_loop_step:
  assumes "\<not> AtEnd s" and "queryable e (proxy s)"
  shows "ctor_loop e l s =
           ctor_loop e (count_batch s l)
             (SparsePageSource_next (s\<lparr>info := Extend (info s) (Info (proxy s)) False False\<rparr>))"
  using assms by (subst ctor_loop.simps) (simp add: ctor_body_eq)

lemma ctor_loop_end: "AtEnd s \<Longrightarrow> ctor_loop e l s = (Inr l, s)"
  by (subst ctor_loop.simps) simp

lemma ctor_loop_pass:
  "in_pass k bs j s \<Longrightarrow>
     (if \<forall>b\<in>set (drop j bs). queryable e b
      then \<exists>s'. ctor_loop e l s = (Inr (tally (drop j bs) l), s') \<and> pass_done k bs s' \<and>
                self s' = self s \<and> cache_prefix s' = cache_prefix s
      else \<exists>s'. ctor_loop e l s = (Inl GPUSupportMissing, s'))"
proof (induction "length bs - j" arbitrary: j s l)
  case 0
  then show ?case by (simp add: in_pass_def)
next
  case (Suc n)
  let ?i = "Extend (info s) (Info (proxy s)) False False"
  let ?s2 = "SparsePageSource_next (s\<lparr>info := ?i\<rparr>)"
  note f = in_pass_facts [OF Suc.prems]
  have dr: "drop j bs = bs ! j # drop (Suc j) bs"
    using f(1) by (simp add: Cons_nth_drop_Suc)
  have ne: "\<not> AtEnd s" using Suc.prems by (rule in_pass_not_AtEnd)
  have s2: "?s2 = (SparsePageSource_next s)\<lparr>info := ?i\<rparr>"
    by (rule SparsePageSource_next_info_update)
  show ?case
  proof (cases "queryable e (bs ! j)")
    case False
    then have "\<not> queryable e (proxy s)" by (simp add: f(2))
    from ctor_loop_fail [OF ne this] False show ?thesis
      by (simp add: dr)
  next
    case q: True
    then have "queryable e (proxy s)" by (simp add: f(2))
    from ctor_loop_step [OF ne this]
    have step: "ctor_loop e l s = ctor_loop e (count_batch s l) ?s2" .
    have cb: "tally (drop j bs) l = tally (drop (Suc j) bs) (count_batch s l)"
      by (simp add: dr count_batch_def f(2) f(3))
    have fr: "self ?s2 = self s \<and> cache_prefix ?s2 = cache_prefix s"
      using in_pass_next_frame [OF Suc.prems] by (simp add: s2)
    have all: "(\<forall>b\<in>set (drop j bs). queryable e b) = (\<forall>b\<in>set (drop (Suc j) bs). queryable e b)"
      using q by (simp add: dr)
    show ?thesis
    proof (cases "Suc j < length bs")
      case True
      then have ip: "in_pass k bs (Suc j) ?s2"
        using in_pass_next [OF Suc.prems] by (simp add: s2)
      have n: "n = length bs - Suc j" using Suc.hyps(2) by simp
      from Suc.hyps(1) [OF n ip, of "count_batch s l"] show ?thesis
        unfolding step cb all using fr by auto
    next
      case False
      then have pd: "pass_done k bs ?s2"
        using in_pass_next [OF Suc.prems] by (simp add: s2)
      have e: "drop (Suc j) bs = []" using False by simp
      have "ctor_loop e (count_batch s l) ?s2 = (Inr (count_batch s l), ?s2)"
        using pass_done_AtEnd [OF pd] by (rule ctor_loop_end)
      then show ?thesis
        unfolding step cb all using pd fr by (simp add: e)
    qed
  qed
qed

lemma tally_fields:
  "l_n_samples (tally bs l) = l_n_samples l + sum_list (map (\<lambda>b. NumRows (adapter b)) bs) \<and>
   l_nnz (tally bs l) = l_nnz l + sum_list (map (\<lambda>b. Size (data (page b))) bs) \<and>
   l_n_features (tally bs l) = fold max (map (\<lambda>b. NumCols (adapter b)) bs) (l_n_features l) \<and>
   l_n_batches (tally bs l) = l_n_batches l + of_nat (length bs)"
  by (induction bs arbitrary: l) (simp_all add: max.commute add.assoc)

lemma ctor_start:
  fixes e ptr bs ph mis nt pfx
  defines "s0 \<equiv> SparsePageDMatrix_init ptr bs ph mis nt pfx"
  defines "k \<equiv> MakeId pfx ptr @ ''.row.page''"
  shows "\<exists>it s1. GetRowBatchesImpl e s0 = (Inr it, s1) \<and> self s1 = ptr \<and> cache_prefix s1 = pfx \<and>
           (if bs = [] then pass_done k bs s1 else in_pass k bs 0 s1)"
  unfolding s0_def k_def
  by (simp add: GetRowBatchesImpl_def InitializeSparsePage_def bindM_def MakeCache_def Let_def
      SparsePageDMatrix_init_def cache_at_def log_event_def modify_def gets_def
      SparsePageSource_new_def SparsePageSource_begin_def cache_written_def iter_Reset_def
      iter_Next_def Commit_def in_pass_def pass_done_def take_Suc_conv_app_nth)

lemma ctor_loop_all:
  fixes e ptr bs ph mis nt pfx
  defines "s0 \<equiv> SparsePageDMatrix_init ptr bs ph mis nt pfx"
  defines "k \<equiv> MakeId pfx ptr @ ''.row.page''"
  shows "\<exists>it s1. GetRowBatchesImpl e s0 = (Inr it, s1) \<and>
           (if \<forall>b\<in>set bs. queryable e b
            then \<exists>s2. ctor_loop e l s1 = (Inr (tally bs l), s2) \<and> pass_done k bs s2 \<and>
                      self s2 = ptr \<and> cache_prefix s2 = pfx
            else \<exists>s2. ctor_loop e l s1 = (Inl GPUSupportMissing, s2))"
proof -
  from ctor_start [of e ptr bs ph mis nt pfx]
  obtain it s1 where g: "GetRowBatchesImpl e s0 = (Inr it, s1)"
    and fr: "self s1 = ptr" "cache_prefix s1 = pfx"
    and st: "if bs = [] then pass_done k bs s1 else in_pass k bs 0 s1"
    unfolding s0_def k_def by blast
  show ?thesis
  proof (cases "bs = []")
    case True
    with st have pd: "pass_done k bs s1" by simp
    from ctor_loop_end [OF pass_done_AtEnd [OF pd]] show ?thesis
      using g fr pd True by simp
  next
    case False
    with st have "in_pass k bs 0 s1" by simp
    from ctor_loop_pass [OF this, of e l] show ?thesis
      using g fr by auto
  qed
qed

lemma ctor_new_eq:
  fixes e ptr bs ph mis nt pfx
  defines "k \<equiv> MakeId (ctor_prefix e pfx) ptr @ ''.row.page''"
  shows "if \<forall>b\<in>set bs. queryable e b
         then \<exists>s2. pass_done k bs s2 \<and> self s2 = ptr \<and> cache_prefix s2 = ctor_prefix e pfx \<and>
                SparsePageDMatrix_new e ptr bs ph mis nt pfx =
                  CHECK NumColNonzero (\<lambda>s. num_col (info s) \<noteq> 0) (ctor_finish e (tally bs l0) s2)
         else fst (SparsePageDMatrix_new e ptr bs ph mis nt pfx) = Inl GPUSupportMissing"
proof -
  from ctor_loop_all [of e ptr bs ph mis nt "ctor_prefix e pfx" l0]
  obtain it s1 where g: "GetRowBatchesImpl e (SparsePageDMatrix_init ptr bs ph mis nt (ctor_prefix e pfx)) = (Inr it, s1)"
    and r: "if \<forall>b\<in>set bs. queryable e b
            then \<exists>s2. ctor_loop e l0 s1 = (Inr (tally bs l0), s2) \<and> pass_done k bs s2 \<and>
                      self s2 = ptr \<and> cache_prefix s2 = ctor_prefix e pfx
            else \<exists>s2. ctor_loop e l0 s1 = (Inl GPUSupportMissing, s2)"
    unfolding k_def by blast
  have new: "SparsePageDMatrix_new e ptr bs ph mis nt pfx =
     (case ctor_loop e l0 s1 of
        (Inl err, s2) \<Rightarrow> (Inl err, s2)
      | (Inr l, s2) \<Rightarrow> CHECK NumColNonzero (\<lambda>s. num_col (info s) \<noteq> 0) (ctor_finish e l s2))"
    using g
    by (simp add: SparsePageDMatrix_new_def ctor_prefix_def Let_def bindM_def modify_def
        ctor_finish_def l0_def iter_Reset_def log_event_def split: prod.splits sum.splits)
  show ?thesis
  proof (cases "\<forall>b\<in>set bs. queryable e b")
    case True
    with r obtain s2 where "ctor_loop e l0 s1 = (Inr (tally bs l0), s2)" "pass_done k bs s2"
      "self s2 = ptr" "cache_prefix s2 = ctor_prefix e pfx" by auto
    then show ?thesis using True by (auto simp: new)
  next
    case False
    with r obtain s2 where "ctor_loop e l0 s1 = (Inl GPUSupportMissing, s2)" by auto
    then show ?thesis using False by (auto simp: new)
  qed
qed

subsection \<open>Reading a written row cache\<close>

lemma at_pos_fields [simp]:
  "src_obj (at_pos f j src) = src_obj src"
  "src_cache (at_pos f j src) = src_cache src"
  "src_at_end (at_pos f j src) = (length f \<le> j)"
  by (auto simp: at_pos_def)

lemma at_pos_at_pos [simp]: "at_pos f j (at_pos f i src) = at_pos f j src"
  by (auto simp: at_pos_def)

lemma at_pos_page: "j < length f \<Longrightarrow> src_page (at_pos f j src) = f ! j"
  by (simp add: at_pos_def)

lemma at_pos_beyond: "length f \<le> j \<Longrightarrow> at_pos f j src = at_pos f (length f) src"
  by (simp add: at_pos_def)

lemma begin_written:
  "cache_written s (src_cache src) \<Longrightarrow>
     SparsePageSource_begin src s =
       s\<lparr>sparse_page_source := Some (at_pos (disk s (src_cache src)) 0 src)\<rparr>"
  by (auto simp: SparsePageSource_begin_def at_pos_def Let_def split: list.splits)

lemma next_written:
  assumes "sparse_page_source s = Some (at_pos f j src)"
    and "cache_written s (src_cache src)" and "disk s (src_cache src) = f"
  shows "SparsePageSource_next s = s\<lparr>sparse_page_source := Some (at_pos f (Suc j) src)\<rparr>"
proof -
  consider "Suc j < length f" | "Suc j = length f" | "length f \<le> j" by linarith
  then show ?thesis
  proof cases
    case 1
    then show ?thesis
      using assms by (simp add: SparsePageSource_next_def at_pos_def Let_def)
  next
    case 2
    then have "f \<noteq> []" by auto
    then have "last f = f ! (length f - 1)" by (rule last_conv_nth)
    with 2 [symmetric] have "last f = f ! j" by simp
    note \<open>f \<noteq> []\<close> this
    with 2 show ?thesis
      using assms by (simp add: SparsePageSource_next_def at_pos_def Let_def)
  next
    case 3
    then have "at_pos f (Suc j) src = at_pos f j src"
      by (simp add: at_pos_def)
    then show ?thesis
      using assms 3 by (simp add: SparsePageSource_next_def)
  qed
qed

lemma cache_written_source_update [simp]:
  "cache_written (s\<lparr>sparse_page_source := x\<rparr>) k = cache_written s k"
  by (simp add: cache_written_def)

lemma cache_written_trace_update [simp]:
  "cache_written (s\<lparr>trace := x\<rparr>) k = cache_written s k"
  by (simp add: cache_written_def)

lemma drain_unfold_step:
  "\<not> AtEnd s \<Longrightarrow> drain (SparsePageSource_next s) = (ps, s') \<Longrightarrow> drain s = (current_page s # ps, s')"
  by (subst drain.simps) simp

lemma drain_unfold_end: "AtEnd s \<Longrightarrow> drain s = ([], s)"
  by (subst drain.simps) simp

lemma drain_written:
  assumes "sparse_page_source s = Some (at_pos f j src)"
    and "cache_written s (src_cache src)" and "disk s (src_cache src) = f"
  shows "drain s = (drop j f, s\<lparr>sparse_page_source := Some (at_pos f (length f) src)\<rparr>)"
  using assms
proof (induction "length f - j" arbitrary: j s)
  case 0
  then have le: "length f \<le> j" by simp
  have "AtEnd s" using 0(2) le by (simp add: AtEnd_def)
  then have "drain s = ([], s)" by (rule drain_unfold_end)
  moreover have "s\<lparr>sparse_page_source := Some (at_pos f (length f) src)\<rparr> = s"
    using 0(2) at_pos_beyond [OF le, of src] by simp
  ultimately show ?case using le by simp
next
  case (Suc n)
  then have j: "j < length f" by simp
  let ?s' = "s\<lparr>sparse_page_source := Some (at_pos f (Suc j) src)\<rparr>"
  have nx: "SparsePageSource_next s = ?s'"
    using Suc.prems by (rule next_written)
  have ne: "\<not> AtEnd s" using Suc.prems(1) j by (simp add: AtEnd_def)
  have cur: "current_page s = f ! j"
    using Suc.prems(1) j by (simp add: current_page_def at_pos_page)
  have n: "n = length f - Suc j" using Suc.hyps(2) by simp
  have "drain ?s' = (drop (Suc j) f, ?s'\<lparr>sparse_page_source := Some (at_pos f (length f) src)\<rparr>)"
  proof (rule Suc.hyps(1) [OF n])
    show "sparse_page_source ?s' = Some (at_pos f (Suc j) src)" by simp
    show "cache_written ?s' (src_cache src)" using Suc.prems(2) by simp
    show "disk ?s' (src_cache src) = f" using Suc.prems(3) by simp
  qed
  then have "drain (SparsePageSource_next s) =
      (drop (Suc j) f, s\<lparr>sparse_page_source := Some (at_pos f (length f) src)\<rparr>)"
    by (simp add: nx)
  from drain_unfold_step [OF ne this] show ?case
    by (simp add: cur Cons_nth_drop_Suc [OF j])
qed

subsection \<open>The counts the constructor records\<close>

lemma unat_sum_list:
  "sum_list (map unat ws) < 2 ^ 64 \<Longrightarrow> unat (sum_list ws :: 64 word) = sum_list (map unat ws)"
proof (induction ws)
  case Nil
  then show ?case by simp
next
  case (Cons w ws)
  then have "sum_list (map unat ws) < 2 ^ 64" by simp
  with Cons have ih: "unat (sum_list ws) = sum_list (map unat ws)" by simp
  have "unat w + unat (sum_list ws) < 2 ^ LENGTH(64)"
    using Cons.prems by (simp add: ih)
  then have "unat (w + sum_list ws) = unat w + unat (sum_list ws)"
    by (simp only: unat_add_lem)
  then show ?case by (simp add: ih)
qed

lemma ctor_finish_info:
  "info (ctor_finish e (tally bs l0) s) =
     (info s)\<lparr>num_row := sum_list (map (\<lambda>b. NumRows (adapter b)) bs),
              num_nonzero := sum_list (map (\<lambda>b. Size (data (page b))) bs),
              num_col := Allreduce_Max e (fold max (map (\<lambda>b. NumCols (adapter b)) bs) 0)\<rparr>"
  using tally_fields [of bs l0] by (simp add: ctor_finish_def l0_def)

lemma ctor_outcome:
  fixes e ptr bs ph mis nt pfx
  defines "r \<equiv> SparsePageDMatrix_new e ptr bs ph mis nt pfx"
  defines "cols \<equiv> Allreduce_Max e (fold max (map (\<lambda>b. NumCols (adapter b)) bs) 0)"
  shows "fst r =
           (if \<not> (\<forall>b\<in>set bs. queryable e b) then Inl GPUSupportMissing
            else if cols = 0 then Inl (CheckFailed NumColNonzero) else Inr ())"
    and "fst r = Inr () \<Longrightarrow>
           num_row (info (snd r)) = sum_list (map (\<lambda>b. NumRows (adapter b)) bs) \<and>
           num_nonzero (info (snd r)) = sum_list (map (\<lambda>b. Size (data (page b))) bs) \<and>
           num_col (info (snd r)) = cols \<and>
           n_batches (snd r) = of_nat (length bs) \<and>
           pass_done (row_key (snd r)) bs (snd r)"
proof -
  show 1: "fst r =
           (if \<not> (\<forall>b\<in>set bs. queryable e b) then Inl GPUSupportMissing
            else if cols = 0 then Inl (CheckFailed NumColNonzero) else Inr ())"
    using ctor_new_eq [where e = e and ptr = ptr and bs = bs and pfx = pfx and ph = ph and mis = mis and nt = nt]
    by (auto simp: r_def cols_def CHECK_def ctor_finish_info)
  assume ok: "fst r = Inr ()"
  with 1 have q: "\<forall>b\<in>set bs. queryable e b"
    by (auto split: if_splits)
  with ctor_new_eq [where e = e and ptr = ptr and bs = bs and pfx = pfx and ph = ph and mis = mis and nt = nt]
  obtain s2 where pd: "pass_done (MakeId (ctor_prefix e pfx) ptr @ ''.row.page'') bs s2"
    and fr: "self s2 = ptr" "cache_prefix s2 = ctor_prefix e pfx"
    and eq: "r = CHECK NumColNonzero (\<lambda>s. num_col (info s) \<noteq> 0) (ctor_finish e (tally bs l0) s2)"
    unfolding r_def by auto
  have s: "snd r = ctor_finish e (tally bs l0) s2"
    by (simp add: eq CHECK_def)
  have "pass_done (row_key (snd r)) bs (snd r)"
    using pd fr
    by (simp add: s row_key_def ctor_finish_def iter_Reset_def log_event_def pass_done_def)
  moreover have "n_batches (snd r) = of_nat (length bs)"
    using tally_fields [of bs l0] by (simp add: s ctor_finish_def l0_def)
  ultimately show "num_row (info (snd r)) = sum_list (map (\<lambda>b. NumRows (adapter b)) bs) \<and>
           num_nonzero (info (snd r)) = sum_list (map (\<lambda>b. Size (data (page b))) bs) \<and>
           num_col (info (snd r)) = cols \<and>
           n_batches (snd r) = of_nat (length bs) \<and>
           pass_done (row_key (snd r)) bs (snd r)"
    by (simp add: s ctor_finish_info cols_def)
qed

lemma unat_Size_sum:
  "sum_list (map length xss) < 2 ^ 64 \<Longrightarrow>
     unat (sum_list (map Size xss)) = sum_list (map length xss)"
proof -
  assume a: "sum_list (map length xss) < 2 ^ 64"
  have each: "\<And>xs. xs \<in> set xss \<Longrightarrow> length xs < 2 ^ 64"
  proof -
    fix xs assume "xs \<in> set xss"
    then have "length xs \<le> sum_list (map length xss)"
      by (simp add: member_le_sum_list)
    with a show "length xs < 2 ^ 64" by simp
  qed
  have u: "map unat (map Size xss) = map length xss"
  proof (rule nth_equalityI)
    show "length (map unat (map Size xss)) = length (map length xss)" by simp
    fix i assume "i < length (map unat (map Size xss))"
    then have i: "i < length xss" by simp
    then have "length (xss ! i) < 2 ^ 64" by (intro each) simp
    then have "unat (Size (xss ! i)) = length (xss ! i)"
      by (simp add: Size_def unat_of_nat)
    with i show "map unat (map Size xss) ! i = map length xss ! i" by simp
  qed
  from unat_sum_list [of "map Size xss"] a show ?thesis
    by (simp only: u)
qed

text \<open>
  Claim C1. Whenever the constructor completes, the row count of the dataset metadata is the
  sum of the row counts of the raw batches the iterator delivered, the nonzero count is the
  sum of the sizes of the row pages made from them, and the column count is the
  distributed-max reduction of the running maximum of their column counts. The sums are those
  of \<^verbatim>\<open>size_t\<close>; they are the sums of natural numbers as long as these stay below \<open>2^64\<close>.
\<close>

theorem constructor_metadata:
  assumes "fst (SparsePageDMatrix_new e ptr bs ph mis nt pfx) = Inr ()"
  shows "num_row (info (snd (SparsePageDMatrix_new e ptr bs ph mis nt pfx))) =
           sum_list (map (\<lambda>b. NumRows (adapter b)) bs) \<and>
         num_nonzero (info (snd (SparsePageDMatrix_new e ptr bs ph mis nt pfx))) =
           sum_list (map (\<lambda>b. Size (data (page b))) bs) \<and>
         num_col (info (snd (SparsePageDMatrix_new e ptr bs ph mis nt pfx))) =
           Allreduce_Max e (fold max (map (\<lambda>b. NumCols (adapter b)) bs) 0) \<and>
         (sum_list (map (\<lambda>b. unat (NumRows (adapter b))) bs) < 2 ^ 64 \<longrightarrow>
            unat (num_row (info (snd (SparsePageDMatrix_new e ptr bs ph mis nt pfx)))) =
              sum_list (map (\<lambda>b. unat (NumRows (adapter b))) bs)) \<and>
         (sum_list (map (\<lambda>b. length (data (page b))) bs) < 2 ^ 64 \<longrightarrow>
            unat (num_nonzero (info (snd (SparsePageDMatrix_new e ptr bs ph mis nt pfx)))) =
              sum_list (map (\<lambda>b. length (data (page b))) bs))"
proof -
  let ?s = "snd (SparsePageDMatrix_new e ptr bs ph mis nt pfx)"
  note c = ctor_outcome(2) [OF assms]
  have rows: "num_row (info ?s) = sum_list (map (\<lambda>b. NumRows (adapter b)) bs)"
    and nnz: "num_nonzero (info ?s) = sum_list (map (\<lambda>b. Size (data (page b))) bs)"
    and cols: "num_col (info ?s) = Allreduce_Max e (fold max (map (\<lambda>b. NumCols (adapter b)) bs) 0)"
    using c by simp_all
  have urows: "unat (num_row (info ?s)) = sum_list (map (\<lambda>b. unat (NumRows (adapter b))) bs)"
    if "sum_list (map (\<lambda>b. unat (NumRows (adapter b))) bs) < 2 ^ 64"
    using unat_sum_list [of "map (\<lambda>b. NumRows (adapter b)) bs"] that
    by (simp add: rows comp_def)
  have unnz: "unat (num_nonzero (info ?s)) = sum_list (map (\<lambda>b. length (data (page b))) bs)"
    if "sum_list (map (\<lambda>b. length (data (page b))) bs) < 2 ^ 64"
    using unat_Size_sum [of "map (\<lambda>b. data (page b)) bs"] that
    by (simp add: nnz comp_def)
  show ?thesis
    using rows nnz cols urows unnz by blast
qed

subsection \<open>The fatal checks\<close>

lemma MakeCache_frame:
  "column_source (snd (MakeCache fmt s)) = column_source s \<and>
   sorted_column_source (snd (MakeCache fmt s)) = sorted_column_source s \<and>
   sparse_page_source (snd (MakeCache fmt s)) = sparse_page_source s \<and>
   source_events (snd (MakeCache fmt s)) = source_events s"
  by (simp add: MakeCache_def Let_def log_event_def source_events_def split: option.splits)

lemma GetColumnBatches_zero:
  "num_col (info s) = 0 \<Longrightarrow>
     GetColumnBatches e s = (Inl (CheckFailed NumColNonzero), snd (MakeCache ''.col.page'' s))"
  by (simp add: GetColumnBatches_def bindM_def CHECK_def MakeCache_def log_event_def Let_def
      split: option.splits)

lemma GetSortedColumnBatches_zero:
  "num_col (info s) = 0 \<Longrightarrow>
     GetSortedColumnBatches e s =
       (Inl (CheckFailed NumColNonzero), snd (MakeCache ''.sorted.col.page'' s))"
  by (simp add: GetSortedColumnBatches_def bindM_def CHECK_def MakeCache_def log_event_def Let_def
      split: option.splits)

text \<open>
  Claim C4. When every batch could be counted and the reduced column count is zero, the
  constructor fails at its check on the column count, and it never completes with a reduced
  column count of zero. With a recorded column count of zero, "get column batches" and "get
  sorted column batches" fail at the same check: only the cache registry has been consulted,
  no page source has been created or reset.
\<close>

theorem zero_columns_fatal:
  "((\<forall>b\<in>set bs. queryable e b) \<and>
    Allreduce_Max e (fold max (map (\<lambda>b. NumCols (adapter b)) bs) 0) = 0 \<longrightarrow>
      fst (SparsePageDMatrix_new e ptr bs ph mis nt pfx) = Inl (CheckFailed NumColNonzero)) \<and>
   (Allreduce_Max e (fold max (map (\<lambda>b. NumCols (adapter b)) bs) 0) = 0 \<longrightarrow>
      fst (SparsePageDMatrix_new e ptr bs ph mis nt pfx) \<noteq> Inr ()) \<and>
   (num_col (info s) = 0 \<longrightarrow>
      fst (GetColumnBatches e s) = Inl (CheckFailed NumColNonzero) \<and>
      column_source (snd (GetColumnBatches e s)) = column_source s \<and>
      sparse_page_source (snd (GetColumnBatches e s)) = sparse_page_source s \<and>
      source_events (snd (GetColumnBatches e s)) = source_events s \<and>
      fst (GetSortedColumnBatches e s) = Inl (CheckFailed NumColNonzero) \<and>
      sorted_column_source (snd (GetSortedColumnBatches e s)) = sorted_column_source s \<and>
      sparse_page_source (snd (GetSortedColumnBatches e s)) = sparse_page_source s \<and>
      source_events (snd (GetSortedColumnBatches e s)) = source_events s)"
proof -
  note c = ctor_outcome(1) [where e = e and ptr = ptr and bs = bs and pfx = pfx and ph = ph
      and mis = mis and nt = nt]
  have 1: "fst (SparsePageDMatrix_new e ptr bs ph mis nt pfx) = Inl (CheckFailed NumColNonzero)"
    if "\<forall>b\<in>set bs. queryable e b"
      and "Allreduce_Max e (fold max (map (\<lambda>b. NumCols (adapter b)) bs) 0) = 0"
    using c that by simp
  have 2: "fst (SparsePageDMatrix_new e ptr bs ph mis nt pfx) \<noteq> Inr ()"
    if "Allreduce_Max e (fold max (map (\<lambda>b. NumCols (adapter b)) bs) 0) = 0"
    using c that by (simp split: if_splits)
  have 3: "fst (GetColumnBatches e s) = Inl (CheckFailed NumColNonzero) \<and>
      column_source (snd (GetColumnBatches e s)) = column_source s \<and>
      sparse_page_source (snd (GetColumnBatches e s)) = sparse_page_source s \<and>
      source_events (snd (GetColumnBatches e s)) = source_events s \<and>
      fst (GetSortedColumnBatches e s) = Inl (CheckFailed NumColNonzero) \<and>
      sorted_column_source (snd (GetSortedColumnBatches e s)) = sorted_column_source s \<and>
      sparse_page_source (snd (GetSortedColumnBatches e s)) = sparse_page_source s \<and>
      source_events (snd (GetSortedColumnBatches e s)) = source_events s"
    if z: "num_col (info s) = 0"
    using MakeCache_frame [of "''.col.page''" s] MakeCache_frame [of "''.sorted.col.page''" s]
    by (simp add: GetColumnBatches_zero [OF z] GetSortedColumnBatches_zero [OF z])
  show ?thesis
    using 1 2 3 by blast
qed

text \<open>
  Claim C8. When the host dispatch reports a type error for the staged batch, the row and
  column queries of the constructor are answered by the device-side functions. In a build
  without CUDA these fail with the missing-capability error (they return no count at all),
  and so does the construction over any sequence of batches that contains such a batch.
\<close>

theorem device_fallback:
  "(snd (HostAdapterDispatch p NumRows) \<longrightarrow> num_rows e p = NSamplesDevice e p) \<and>
   (snd (HostAdapterDispatch p NumCols) \<longrightarrow> num_cols e p = NFeaturesDevice e p) \<and>
   (\<not> use_cuda e \<longrightarrow>
      NSamplesDevice e p = Inl GPUSupportMissing \<and> NFeaturesDevice e p = Inl GPUSupportMissing) \<and>
   (\<not> use_cuda e \<and> p \<in> set bs \<and> snd (HostAdapterDispatch p NumRows) \<longrightarrow>
      fst (SparsePageDMatrix_new e ptr bs ph mis nt pfx) = Inl GPUSupportMissing)"
proof -
  have 1: "snd (HostAdapterDispatch p NumRows) \<longrightarrow> num_rows e p = NSamplesDevice e p"
    by (simp add: num_rows_def split: prod.splits)
  have 2: "snd (HostAdapterDispatch p NumCols) \<longrightarrow> num_cols e p = NFeaturesDevice e p"
    by (simp add: num_cols_def split: prod.splits)
  have 3: "\<not> use_cuda e \<longrightarrow>
      NSamplesDevice e p = Inl GPUSupportMissing \<and> NFeaturesDevice e p = Inl GPUSupportMissing"
    by (simp add: NSamplesDevice_def NFeaturesDevice_def AssertGPUSupport_def)
  have 4: "fst (SparsePageDMatrix_new e ptr bs ph mis nt pfx) = Inl GPUSupportMissing"
    if "\<not> use_cuda e" and "p \<in> set bs" and "snd (HostAdapterDispatch p NumRows)"
  proof -
    from that(3) have "\<not> is_HostAdapter (adapter p)"
      by (cases "adapter p") (simp_all add: HostAdapterDispatch_def)
    with that(1) have "\<not> queryable e p" by (simp add: queryable_def)
    with that(2) have "\<not> (\<forall>b\<in>set bs. queryable e b)" by blast
    with ctor_outcome(1) [where e = e and ptr = ptr and bs = bs and pfx = pfx and ph = ph
        and mis = mis and nt = nt]
    show ?thesis by simp
  qed
  show ?thesis
    using 1 2 3 4 by blast
qed

text \<open>
  Claim C7. With a maximum bin count below 2, "get histogram-index batches" fails at its
  first check and leaves the matrix, the registry, the iterator and the cache files as they
  were.
\<close>

theorem GetGradientIndex_max_bin:
  "max_bin prm < 2 \<Longrightarrow> GetGradientIndex e prm s = (Inl (CheckFailed MaxBinAtLeast2), s)"
  by (simp add: GetGradientIndex_def bindM_def CHECK_def)

text \<open>
  Claim C10. In a build without CUDA, "get ellpack batches" fails with the missing-capability
  error for every batch parameter and every state, and returns no iterator.
\<close>

theorem GetEllpackBatches_fails:
  "GetEllpackBatches prm s = (Inl GPUSupportMissing, s)"
  by (simp add: GetEllpackBatches_def AssertGPUSupport_def)

subsection \<open>Requests on a constructed matrix\<close>

lemma row_readyD:
  assumes "row_ready s"
  obtains c src where "cache_info s (row_key s) = Some c" and "written c"
    and "sparse_page_source s = Some src" and "src_cache src = row_key s"
  using assms
  by (auto simp: row_ready_def cache_written_def split: option.splits)

lemma reposition_fields [simp]:
  "info (reposition j t s) = info s"
  "cache_info (reposition j t s) = cache_info s"
  "cache_prefix (reposition j t s) = cache_prefix s"
  "self (reposition j t s) = self s"
  "disk (reposition j t s) = disk s"
  "batch_param (reposition j t s) = batch_param s"
  "ghist_index_page (reposition j t s) = ghist_index_page s"
  "ghist_index_source (reposition j t s) = ghist_index_source s"
  "column_source (reposition j t s) = column_source s"
  "sorted_column_source (reposition j t s) = sorted_column_source s"
  "next_obj (reposition j t s) = next_obj s"
  "missing (reposition j t s) = missing s"
  "nthread (reposition j t s) = nthread s"
  "n_batches (reposition j t s) = n_batches s"
  "iter_batches (reposition j t s) = iter_batches s"
  "iter_cursor (reposition j t s) = iter_cursor s"
  "proxy (reposition j t s) = proxy s"
  "trace (reposition j t s) = trace s @ t"
  "sparse_page_source (reposition j t s) =
     map_option (at_pos (disk s (row_key s)) j) (sparse_page_source s)"
  by (simp_all add: reposition_def)

lemma row_key_reposition [simp]: "row_key (reposition j t s) = row_key s"
  by (simp add: row_key_def)

lemma row_key_updates [simp]:
  "row_key (s\<lparr>trace := t\<rparr>) = row_key s"
  "row_key (s\<lparr>sparse_page_source := x\<rparr>) = row_key s"
  "row_key (s\<lparr>cache_info := ci\<rparr>) = row_key s"
  "row_key (s\<lparr>batch_param := bp\<rparr>) = row_key s"
  "row_key (s\<lparr>ghist_index_page := gp\<rparr>) = row_key s"
  "row_key (s\<lparr>ghist_index_source := gs\<rparr>) = row_key s"
  "row_key (s\<lparr>column_source := cs\<rparr>) = row_key s"
  "row_key (s\<lparr>sorted_column_source := cs\<rparr>) = row_key s"
  "row_key (s\<lparr>next_obj := n\<rparr>) = row_key s"
  by (simp_all add: row_key_def)

lemma row_key_log_event [simp]: "row_key (log_event ev s) = row_key s"
  by (simp add: log_event_def)

lemma log_event_fields [simp]:
  "disk (log_event ev s) = disk s"
  "cache_info (log_event ev s) = cache_info s"
  "sparse_page_source (log_event ev s) = sparse_page_source s"
  "batch_param (log_event ev s) = batch_param s"
  "ghist_index_page (log_event ev s) = ghist_index_page s"
  "ghist_index_source (log_event ev s) = ghist_index_source s"
  "column_source (log_event ev s) = column_source s"
  "sorted_column_source (log_event ev s) = sorted_column_source s"
  "next_obj (log_event ev s) = next_obj s"
  "missing (log_event ev s) = missing s"
  "nthread (log_event ev s) = nthread s"
  "n_batches (log_event ev s) = n_batches s"
  "cache_prefix (log_event ev s) = cache_prefix s"
  "self (log_event ev s) = self s"
  "trace (log_event ev s) = trace s @ [ev]"
  by (simp_all add: log_event_def)

lemma row_ready_reposition [simp]: "row_ready (reposition j t s) = row_ready s"
  by (auto simp: row_ready_def cache_written_def split: option.splits)

lemma reposition_reposition [simp]:
  "reposition j' t' (reposition j t s) = reposition j' (t @ t') s"
  by (cases "sparse_page_source s") (simp_all add: reposition_def)

lemma reposition_log [simp]: "reposition j t (log_event ev s) = reposition j (ev # t) s"
  by (simp add: reposition_def) (simp add: log_event_def)

lemma row_ready_log [simp]: "row_ready (log_event ev s) = row_ready s"
  by (auto simp: row_ready_def cache_written_def log_event_def split: option.splits)

lemma MakeCache_row_ready:
  "row_ready s \<Longrightarrow> MakeCache ''.row.page'' s = (Inr (row_key s), s)"
  by (erule row_readyD) (simp add: MakeCache_def row_key_def Let_def)

lemma InitializeSparsePage_ready:
  assumes "row_ready s"
  shows "InitializeSparsePage e s = (Inr (), reposition 0 [SourceReset ''.row.page''] s)"
proof -
  from assms obtain c src where c: "cache_info s (row_key s) = Some c" "written c"
    and src: "sparse_page_source s = Some src" "src_cache src = row_key s"
    by (rule row_readyD)
  have w: "cache_written (log_event (SourceReset ''.row.page'') s) (src_cache src)"
    using c src by (simp add: cache_written_def log_event_def)
  have "SparsePageSource_Reset s = reposition 0 [SourceReset ''.row.page''] s"
    using src by (simp add: SparsePageSource_Reset_def begin_written [OF w] reposition_def)
      (simp add: log_event_def)
  then show ?thesis
    using c src
    by (simp add: InitializeSparsePage_def bindM_def MakeCache_row_ready [OF assms] cache_at_def
        CHECK_def modify_def)
qed

lemma GetRowBatches_ready:
  assumes "row_ready s"
  shows "GetRowBatches e s =
           (Inr (BatchIterator (map_option src_obj (sparse_page_source s))),
            reposition 0 [SourceReset ''.row.page''] s)"
  by (cases "sparse_page_source s")
     (simp_all add: GetRowBatches_def GetRowBatchesImpl_def bindM_def gets_def
      InitializeSparsePage_ready [OF assms])

lemma drain_reposition:
  assumes "row_ready s"
  shows "drain (reposition j t s) =
           (drop j (disk s (row_key s)), reposition (length (disk s (row_key s))) t s)"
proof -
  from assms obtain c src where c: "cache_info s (row_key s) = Some c" "written c"
    and src: "sparse_page_source s = Some src" "src_cache src = row_key s"
    by (rule row_readyD)
  let ?f = "disk s (row_key s)"
  have 1: "sparse_page_source (reposition j t s) = Some (at_pos ?f j src)"
    using src by simp
  have 2: "cache_written (reposition j t s) (src_cache src)"
    using c src by (simp add: cache_written_def)
  have 3: "disk (reposition j t s) (src_cache src) = ?f"
    using src by simp
  from drain_written [OF 1 2 3] show ?thesis
    using src by (simp add: reposition_def)
qed

lemma next_reposition:
  assumes "row_ready s"
  shows "SparsePageSource_next (reposition j t s) = reposition (Suc j) t s"
proof -
  from assms obtain c src where c: "cache_info s (row_key s) = Some c" "written c"
    and src: "sparse_page_source s = Some src" "src_cache src = row_key s"
    by (rule row_readyD)
  let ?f = "disk s (row_key s)"
  have 1: "sparse_page_source (reposition j t s) = Some (at_pos ?f j src)"
    using src by simp
  have 2: "cache_written (reposition j t s) (src_cache src)"
    using c src by (simp add: cache_written_def)
  have 3: "disk (reposition j t s) (src_cache src) = ?f"
    using src by simp
  from next_written [OF 1 2 3] show ?thesis
    using src by (simp add: reposition_def)
qed

lemma SketchOnDMatrix_ready:
  assumes "row_ready s"
  shows "SketchOnDMatrix e mb so hs s =
           (Inr \<lparr>Values = sketch e (disk s (row_key s)) mb so hs\<rparr>,
            reposition (length (disk s (row_key s))) [Sketched mb so, SourceReset ''.row.page''] s)"
proof -
  have r: "row_ready (log_event (Sketched mb so) s)" using assms by simp
  show ?thesis
    by (simp add: SketchOnDMatrix_def bindM_def modify_def GetRowBatches_ready [OF r]
        drain_reposition [OF assms])
qed

lemma row_ready_updates [simp]:
  "row_ready (s\<lparr>trace := t\<rparr>) = row_ready s"
  "row_ready (s\<lparr>batch_param := bp\<rparr>) = row_ready s"
  "row_ready (s\<lparr>ghist_index_page := gp\<rparr>) = row_ready s"
  "row_ready (s\<lparr>ghist_index_source := gs\<rparr>) = row_ready s"
  "row_ready (s\<lparr>column_source := cs\<rparr>) = row_ready s"
  "row_ready (s\<lparr>sorted_column_source := cs\<rparr>) = row_ready s"
  "row_ready (s\<lparr>next_obj := n\<rparr>) = row_ready s"
  by (auto simp: row_ready_def cache_written_def split: option.splits)

lemma reposition_commute:
  "reposition j t (s\<lparr>ghist_index_page := gp\<rparr>) = (reposition j t s)\<lparr>ghist_index_page := gp\<rparr>"
  "reposition j t (s\<lparr>batch_param := bp\<rparr>) = (reposition j t s)\<lparr>batch_param := bp\<rparr>"
  by (simp_all add: reposition_def)

lemma GHistIndexMatrix_new_ready:
  assumes "row_ready s"
  shows "GHistIndexMatrix_new e mb so s =
           (Inr (built_index e mb so s),
            reposition (length (row_pages s))
              [GHistIndexBuilt mb so, Sketched mb so, SourceReset ''.row.page'',
               SourceReset ''.row.page''] s)"
proof -
  let ?s1 = "log_event (GHistIndexBuilt mb so) s"
  have r1: "row_ready ?s1" using assms by simp
  let ?s2 = "reposition (length (disk s (row_key s)))
               [GHistIndexBuilt mb so, Sketched mb so, SourceReset ''.row.page''] s"
  have sk: "SketchOnDMatrix e mb so [] ?s1 =
              (Inr \<lparr>Values = sketch e (disk s (row_key s)) mb so []\<rparr>, ?s2)"
    by (simp add: SketchOnDMatrix_ready [OF r1])
  have r2: "row_ready ?s2" using assms by simp
  show ?thesis
    by (simp add: GHistIndexMatrix_new_def bindM_def modify_def sk GetRowBatches_ready [OF r2]
        drain_reposition [OF assms] built_index_def row_pages_def)
qed

subsection \<open>The histogram index held in memory\<close>

lemma GetGradientIndex_in_memory_keep:
  assumes "hess prm = []" and "\<not> regen prm" and "2 \<le> max_bin prm"
    and "\<not> in_memory_rebuild prm s"
  shows "GetGradientIndex e prm s = (Inr (SimpleBatchIteratorImpl (ghist_index_page s)), s)"
proof -
  have c: "(ghist_index_page s = None \<or>
      (BatchParam_ne prm (batch_param s) \<and> BatchParam_ne prm BatchParam_default)) = False"
    using assms(4) by (simp add: in_memory_rebuild_def)
  show ?thesis
    unfolding GetGradientIndex_def bindM_def CHECK_def return_def gets_def
    by (simp only: assms(1,2,3) c if_True if_False simp_thms prod.case sum.case)
qed

lemma GetGradientIndex_in_memory_rebuild:
  assumes "row_ready s" and "hess prm = []" and "\<not> regen prm" and "2 \<le> max_bin prm"
    and "in_memory_rebuild prm s"
  shows "GetGradientIndex e prm s =
           (Inr (SimpleBatchIteratorImpl (Some (built_index e (max_bin prm) False s))),
            (reposition 0
               [SourceReset ''.row.page'', GHistIndexBuilt (max_bin prm) False,
                Sketched (max_bin prm) False, SourceReset ''.row.page'',
                SourceReset ''.row.page'', SourceReset ''.row.page''] s)
              \<lparr>ghist_index_page := Some (built_index e (max_bin prm) False s),
               batch_param := prm\<rparr>)"
proof -
  let ?t1 = "[SourceReset ''.row.page'']"
  let ?s1 = "reposition 0 ?t1 s"
  have r1: "row_ready ?s1" using assms(1) by simp
  let ?g = "built_index e (max_bin prm) False s"
  let ?t2 = "[SourceReset ''.row.page'', GHistIndexBuilt (max_bin prm) False,
              Sketched (max_bin prm) False, SourceReset ''.row.page'', SourceReset ''.row.page'']"
  let ?s2 = "reposition (length (row_pages s)) ?t2 s"
  have g: "GHistIndexMatrix_new e (max_bin prm) False ?s1 = (Inr ?g, ?s2)"
    by (simp add: GHistIndexMatrix_new_ready [OF r1] built_index_def row_pages_def)
  let ?s3 = "?s2\<lparr>ghist_index_page := Some ?g\<rparr>"
  have r3: "row_ready ?s3" using assms(1) by simp
  have i3: "InitializeSparsePage e ?s3 = (Inr (), reposition 0 ?t1 ?s3)"
    by (rule InitializeSparsePage_ready [OF r3])
  have c: "(ghist_index_page s = None \<or>
      (BatchParam_ne prm (batch_param s) \<and> BatchParam_ne prm BatchParam_default)) = True"
    using assms(3,5) by (simp add: in_memory_rebuild_def)
  have "GetGradientIndex e prm s =
      bindM (\<lambda>s. bindM (InitializeSparsePage e) (\<lambda>_.
           bindM (GHistIndexMatrix_new e (max_bin prm) (regen prm)) (\<lambda>g.
           bindM (modify (\<lambda>s. s\<lparr>ghist_index_page := Some g\<rparr>)) (\<lambda>_.
           bindM (InitializeSparsePage e) (\<lambda>_.
           modify (\<lambda>s. s\<lparr>batch_param := prm\<rparr>))))) s)
        (\<lambda>_. gets (\<lambda>s. SimpleBatchIteratorImpl (ghist_index_page s))) s"
    unfolding GetGradientIndex_def
    by (subst bindM_def) (simp only: CHECK_def assms(2,3,4) c if_True simp_thms prod.case sum.case
        bindM_def)
  then show ?thesis
    using assms(3)
    by (simp add: bindM_def gets_def modify_def
        InitializeSparsePage_ready [OF assms(1)] g i3 reposition_commute)
qed

text \<open>
  Claim C2. In the in-memory regime (no row weighting, no forced regeneration, at least two
  bins), on a constructed matrix: the single-page histogram index is built anew exactly when
  no page exists yet, or the parameters differ from the last-used ones and from the default
  ones, or regeneration is requested; otherwise the call changes nothing and serves the
  existing page. After a call with 256 bins, a call with 64 bins builds the index again.
\<close>

theorem in_memory_index_rebuild:
  assumes "row_ready s" and "hess prm = []" and "\<not> regen prm" and "2 \<le> max_bin prm"
  shows "(in_memory_rebuild prm s \<longrightarrow>
            fst (GetGradientIndex e prm s) =
              Inr (SimpleBatchIteratorImpl (Some (built_index e (max_bin prm) False s))) \<and>
            ghist_index_page (snd (GetGradientIndex e prm s)) =
              Some (built_index e (max_bin prm) False s) \<and>
            batch_param (snd (GetGradientIndex e prm s)) = prm \<and>
            builds (snd (GetGradientIndex e prm s)) = Suc (builds s)) \<and>
         (\<not> in_memory_rebuild prm s \<longrightarrow>
            GetGradientIndex e prm s = (Inr (SimpleBatchIteratorImpl (ghist_index_page s)), s)) \<and>
         ((builds (snd (GetGradientIndex e prm s)) \<noteq> builds s) = in_memory_rebuild prm s) \<and>
         (max_bin prm = 256 \<longrightarrow>
            (\<forall>prm2. max_bin prm2 = 64 \<and> hess prm2 = [] \<and> \<not> regen prm2 \<longrightarrow>
               in_memory_rebuild prm2 (snd (GetGradientIndex e prm s)) \<and>
               builds (snd (GetGradientIndex e prm2 (snd (GetGradientIndex e prm s)))) =
                 Suc (builds (snd (GetGradientIndex e prm s)))))"
proof -
  let ?r = "GetGradientIndex e prm s"
  have keep: "?r = (Inr (SimpleBatchIteratorImpl (ghist_index_page s)), s)"
    if "\<not> in_memory_rebuild prm s"
    using assms(2,3,4) that by (rule GetGradientIndex_in_memory_keep)
  note rb = GetGradientIndex_in_memory_rebuild [OF assms, of e]
  have rebuilt: "fst ?r = Inr (SimpleBatchIteratorImpl (Some (built_index e (max_bin prm) False s))) \<and>
            ghist_index_page (snd ?r) = Some (built_index e (max_bin prm) False s) \<and>
            batch_param (snd ?r) = prm \<and> builds (snd ?r) = Suc (builds s)"
    if "in_memory_rebuild prm s"
    using rb [OF that] by (simp add: builds_def)
  have iff: "(builds (snd ?r) \<noteq> builds s) = in_memory_rebuild prm s"
    using keep rebuilt by (cases "in_memory_rebuild prm s") simp_all
  have ready: "row_ready (snd ?r)"
    using keep rb assms(1) by (cases "in_memory_rebuild prm s") simp_all
  have scenario: "in_memory_rebuild prm2 (snd ?r) \<and>
        builds (snd (GetGradientIndex e prm2 (snd ?r))) = Suc (builds (snd ?r))"
    if a: "max_bin prm = 256" and b: "max_bin prm2 = 64" "hess prm2 = []" "\<not> regen prm2" for prm2
  proof -
    have "max_bin (batch_param (snd ?r)) = 256"
    proof (cases "in_memory_rebuild prm s")
      case True
      with rebuilt a show ?thesis by simp
    next
      case False
      then have "\<not> BatchParam_ne prm (batch_param s)"
        using a by (auto simp: in_memory_rebuild_def BatchParam_ne_def BatchParam_default_def)
      then show ?thesis
        using a keep [OF False] by (simp add: BatchParam_ne_def)
    qed
    then have rb2: "in_memory_rebuild prm2 (snd ?r)"
      using b by (simp add: in_memory_rebuild_def BatchParam_ne_def BatchParam_default_def)
    have "2 \<le> max_bin prm2" using b by simp
    from GetGradientIndex_in_memory_rebuild [OF ready b(2) b(3) this rb2, of e] rb2
    show ?thesis by (simp add: builds_def)
  qed
  show ?thesis
    using keep rebuilt iff scenario by blast
qed

lemma pass_done_row_ready: "pass_done (row_key s) bs s \<Longrightarrow> row_ready s"
  by (auto simp: pass_done_def row_ready_def cache_written_def split: option.splits)

lemma constructed_row_ready:
  assumes "fst (SparsePageDMatrix_new e ptr bs ph mis nt pfx) = Inr ()"
  shows "row_ready (snd (SparsePageDMatrix_new e ptr bs ph mis nt pfx))"
proof -
  let ?s = "snd (SparsePageDMatrix_new e ptr bs ph mis nt pfx)"
  from ctor_outcome(2) [OF assms] have "pass_done (row_key ?s) bs ?s" by simp
  then show ?thesis by (rule pass_done_row_ready)
qed

subsection \<open>The histogram index on disk\<close>

lemma gi_key_not_row_key [simp]: "gi_key s \<noteq> row_key s" "row_key s \<noteq> gi_key s"
  by (simp_all add: gi_key_def row_key_def)

lemma put_cache_fields [simp]:
  "info (put_cache t s) = info s"
  "cache_prefix (put_cache t s) = cache_prefix s"
  "self (put_cache t s) = self s"
  "disk (put_cache t s) = disk s"
  "batch_param (put_cache t s) = batch_param s"
  "ghist_index_page (put_cache t s) = ghist_index_page s"
  "ghist_index_source (put_cache t s) = ghist_index_source s"
  "column_source (put_cache t s) = column_source s"
  "sorted_column_source (put_cache t s) = sorted_column_source s"
  "next_obj (put_cache t s) = next_obj s"
  "missing (put_cache t s) = missing s"
  "nthread (put_cache t s) = nthread s"
  "n_batches (put_cache t s) = n_batches s"
  "trace (put_cache t s) = trace s @ t"
  "sparse_page_source (put_cache t s) = sparse_page_source s"
  "cache_info (put_cache t s) = (cache_info s)(gi_key s \<mapsto> fresh_gi_cache s)"
  by (simp_all add: put_cache_def)

lemma row_key_put_cache [simp]: "row_key (put_cache t s) = row_key s"
  by (simp add: row_key_def)

lemma gi_key_put_cache [simp]: "gi_key (put_cache t s) = gi_key s"
  by (simp add: gi_key_def)

lemma gi_key_reposition [simp]: "gi_key (reposition j t s) = gi_key s"
  by (simp add: gi_key_def)

lemma row_pages_put_cache [simp]: "row_pages (put_cache t s) = row_pages s"
  by (simp add: row_pages_def)

lemma row_pages_reposition [simp]: "row_pages (reposition j t s) = row_pages s"
  by (simp add: row_pages_def)

lemma row_ready_put_cache [simp]: "row_ready (put_cache t s) = row_ready s"
  by (auto simp: row_ready_def cache_written_def split: option.splits)

lemma MakeCache_gi_present:
  "cache_info s (gi_key s) = Some c \<Longrightarrow> MakeCache ''.gradient_index.page'' s = (Inr (gi_key s), s)"
  by (simp add: MakeCache_def gi_key_def Let_def)

lemma MakeCache_gi_absent:
  "cache_info s (gi_key s) = None \<Longrightarrow>
     MakeCache ''.gradient_index.page'' s = (Inr (gi_key s), put_cache [CacheCreated (gi_key s)] s)"
  by (simp add: MakeCache_def gi_key_def Let_def put_cache_def fresh_gi_cache_def log_event_def)

lemma erase_then_MakeCache:
  "MakeCache ''.gradient_index.page'' (cache_erase (gi_key s) s) =
     (Inr (gi_key s), put_cache [CacheErased (gi_key s), CacheCreated (gi_key s)] s)"
  by (simp add: MakeCache_def gi_key_def Let_def put_cache_def fresh_gi_cache_def log_event_def
      cache_erase_def)

lemma rebuild_chain:
  assumes "row_ready u" and k: "k = gi_key u"
  shows "bindM (bindM (modify (cache_erase k)) (\<lambda>_.
           bindM (MakeCache ''.gradient_index.page'') (\<lambda>_.
           bindM (SketchOnDMatrix e (max_bin prm) (regen prm) (hess prm)) (\<lambda>cuts.
           bindM (InitializeSparsePage e) (\<lambda>_.
           bindM (modify (\<lambda>s. s\<lparr>batch_param := prm\<rparr>)) (\<lambda>_.
           bindM (modify (\<lambda>s. s\<lparr>ghist_index_source := None\<rparr>)) (\<lambda>_.
           bindM (CHECK CutsNonEmpty (\<lambda>_. Size (Values cuts) \<noteq> 0)) (\<lambda>_.
           bindM (cache_at k) (\<lambda>_.
           bindM (\<lambda>s. GradientIndexPageSource_new (missing s) (Threads e (nthread s))
                         (num_col (info s)) (n_batches s) k prm cuts (IsDense e (info s))
                         (max_bin prm) (feature_types (info s)) (sparse_page_source s) s) (\<lambda>src.
           modify (\<lambda>s. s\<lparr>ghist_index_source := Some src\<rparr>))))))))))) f u =
         (if Size (sketch e (row_pages u) (max_bin prm) (regen prm) (hess prm)) \<noteq> 0
          then f () (gi_rebuilt e prm u)
          else (Inl (CheckFailed CutsNonEmpty), gi_rebuild_failed e prm u))"
proof -
  let ?v = "put_cache [CacheErased (gi_key u), CacheCreated (gi_key u)] u"
  have rv: "row_ready ?v" using assms by simp
  let ?t = "[Sketched (max_bin prm) (regen prm), SourceReset ''.row.page'']"
  let ?w = "reposition (length (row_pages u)) ?t ?v"
  have sk: "SketchOnDMatrix e (max_bin prm) (regen prm) (hess prm) ?v =
      (Inr \<lparr>Values = sketch e (row_pages u) (max_bin prm) (regen prm) (hess prm)\<rparr>, ?w)"
    using SketchOnDMatrix_ready [OF rv, of e "max_bin prm" "regen prm" "hess prm"]
    by (simp add: row_pages_def)
  have rw: "row_ready ?w" using assms by simp
  have iw: "InitializeSparsePage e ?w = (Inr (), reposition 0 (?t @ [SourceReset ''.row.page'']) ?v)"
    using InitializeSparsePage_ready [OF rw, of e] by simp
  obtain src where src: "sparse_page_source u = Some src"
    using assms(1) by (rule row_readyD)
  show ?thesis
    unfolding k
    by (simp add: bindM_def modify_def erase_then_MakeCache sk iw CHECK_def cache_at_def
        GradientIndexPageSource_new_def gi_rebuilt_def gi_rebuild_failed_def new_gi_source_def
        src)
      (intro impI arg_cong [where f = "f ()"], simp add: reposition_def log_event_def)
qed

lemma MakeCache_gi: "MakeCache ''.gradient_index.page'' s = (Inr (gi_key s), gi_lookup s)"
  by (cases "cache_info s (gi_key s)")
     (simp_all add: gi_lookup_def MakeCache_gi_present MakeCache_gi_absent)

lemma gi_lookup_fields [simp]:
  "info (gi_lookup s) = info s"
  "cache_prefix (gi_lookup s) = cache_prefix s"
  "self (gi_lookup s) = self s"
  "disk (gi_lookup s) = disk s"
  "batch_param (gi_lookup s) = batch_param s"
  "ghist_index_page (gi_lookup s) = ghist_index_page s"
  "ghist_index_source (gi_lookup s) = ghist_index_source s"
  "column_source (gi_lookup s) = column_source s"
  "sorted_column_source (gi_lookup s) = sorted_column_source s"
  "next_obj (gi_lookup s) = next_obj s"
  "missing (gi_lookup s) = missing s"
  "nthread (gi_lookup s) = nthread s"
  "n_batches (gi_lookup s) = n_batches s"
  "sparse_page_source (gi_lookup s) = sparse_page_source s"
  "row_key (gi_lookup s) = row_key s"
  "gi_key (gi_lookup s) = gi_key s"
  "row_pages (gi_lookup s) = row_pages s"
  "row_ready (gi_lookup s) = row_ready s"
  by (simp_all add: gi_lookup_def split: option.splits)

lemma gi_lookup_trace:
  "trace (gi_lookup s) =
     trace s @ (if cache_info s (gi_key s) = None then [CacheCreated (gi_key s)] else [])"
  by (simp add: gi_lookup_def split: option.splits)

lemma gi_lookup_entry:
  "cache_info (gi_lookup s) (gi_key s) =
     Some (case cache_info s (gi_key s) of None \<Rightarrow> fresh_gi_cache s | Some c \<Rightarrow> c)"
  by (simp add: gi_lookup_def split: option.splits)

lemma bindM_Inr: "m s = (Inr x, s') \<Longrightarrow> bindM m f s = f x s'"
  by (simp add: bindM_def)

lemma bindM_known:
  "m s = r \<Longrightarrow> bindM m f s = (case r of (Inl err, s') \<Rightarrow> (Inl err, s') | (Inr x, s') \<Rightarrow> f x s')"
  by (simp add: bindM_def)

lemma bindM_if_state:
  "bindM (\<lambda>s. if C s then A s else B s) f u = (if C u then bindM A f u else bindM B f u)"
  by (simp add: bindM_def)

lemma GetGradientIndex_on_disk:
  assumes "row_ready s" and "hess prm \<noteq> [] \<or> regen prm" and "2 \<le> max_bin prm"
  shows "GetGradientIndex e prm s =
     (if on_disk_rebuild prm s then
        (if Size (sketch e (row_pages s) (max_bin prm) (regen prm) (hess prm)) \<noteq> 0
         then (Inr (BatchIterator (Some (next_obj s))), gi_rebuilt e prm (gi_entered s))
         else (Inl (CheckFailed CutsNonEmpty), gi_rebuild_failed e prm (gi_entered s)))
      else
        (case ghist_index_source s of
           None \<Rightarrow> (Inl (CheckFailed GHistIndexSourceSet), gi_entered s)
         | Some g \<Rightarrow>
             (Inr (BatchIterator (Some (inc_obj g))),
              (log_event (SourceReset ''.gradient_index.page'') (gi_entered s))
                \<lparr>ghist_index_source := Some (g\<lparr>inc_count := 0\<rparr>)\<rparr>)))"
proof -
  let ?u = "gi_entered s"
  let ?c = "case cache_info s (gi_key s) of None \<Rightarrow> fresh_gi_cache s | Some c \<Rightarrow> c"
  have rl: "row_ready (gi_lookup s)" using assms(1) by simp
  have init: "InitializeSparsePage e (gi_lookup s) = (Inr (), ?u)"
    unfolding gi_entered_def by (rule InitializeSparsePage_ready [OF rl])
  have at: "cache_at (gi_key s) ?u = (Inr ?c, ?u)"
    by (simp add: cache_at_def gi_entered_def gi_lookup_entry)
  have ru: "row_ready ?u" using assms(1) by (simp add: gi_entered_def)
  have ku: "gi_key s = gi_key ?u" by (simp add: gi_entered_def)
  note chain = rebuild_chain [OF ru ku, of e prm]
  note b1 = bindM_Inr [where m = "CHECK MaxBinAtLeast2 (\<lambda>_. 2 \<le> max_bin prm)" and s = s]
  note b2 = bindM_Inr [where m = "MakeCache ''.gradient_index.page''" and s = s, OF MakeCache_gi]
  note b3 = bindM_Inr [where m = "InitializeSparsePage e" and s = "gi_lookup s"]
  note b4 = bindM_Inr [where m = "cache_at (gi_key s)" and s = "gi_entered s"]
  have nd: "BatchParam_ne prm BatchParam_default"
    using assms(2) by (auto simp: BatchParam_ne_def BatchParam_default_def)
  have cond: "(\<not> written ?c \<or>
      (BatchParam_ne (batch_param ?u) prm \<and> BatchParam_ne prm BatchParam_default) \<or> regen prm)
      = on_disk_rebuild prm s"
    using nd
    by (auto simp: on_disk_rebuild_def cache_written_def gi_entered_def fresh_gi_cache_def
        split: option.splits)
  have regime: "(hess prm = [] \<and> \<not> regen prm) = False"
    using assms(2) by simp
  have e1: "CHECK MaxBinAtLeast2 (\<lambda>_. 2 \<le> max_bin prm) s = (Inr (), s)"
    using assms(3) by (simp add: CHECK_def)
  show ?thesis
  proof (cases "on_disk_rebuild prm s")
    case True
    then have c: "(\<not> written ?c \<or>
      (BatchParam_ne (batch_param ?u) prm \<and> BatchParam_ne prm BatchParam_default) \<or> regen prm)
      = True"
      using cond by simp
    show ?thesis
      unfolding GetGradientIndex_def
      apply (simp only: b1 [OF e1] b2 b3 [OF init] b4 [OF at] regime if_False bindM_if_state c
          if_True chain)
      apply (simp add: True gets_def gi_rebuilt_def new_gi_source_def gi_entered_def)
      done
  next
    case False
    then have c: "(\<not> written ?c \<or>
      (BatchParam_ne (batch_param ?u) prm \<and> BatchParam_ne prm BatchParam_default) \<or> regen prm)
      = False"
      using cond by simp
    show ?thesis
      unfolding GetGradientIndex_def
      apply (simp only: b1 [OF e1] b2 b3 [OF init] b4 [OF at] regime if_False bindM_if_state c)
      apply (cases "ghist_index_source s")
       apply (simp_all add: False bindM_def CHECK_def gets_def modify_def gi_entered_def
          log_event_def)
      done
  qed
qed

lemma gi_entered_fields [simp]:
  "info (gi_entered s) = info s"
  "cache_prefix (gi_entered s) = cache_prefix s"
  "self (gi_entered s) = self s"
  "next_obj (gi_entered s) = next_obj s"
  "missing (gi_entered s) = missing s"
  "nthread (gi_entered s) = nthread s"
  "n_batches (gi_entered s) = n_batches s"
  "batch_param (gi_entered s) = batch_param s"
  "ghist_index_source (gi_entered s) = ghist_index_source s"
  "gi_key (gi_entered s) = gi_key s"
  "row_key (gi_entered s) = row_key s"
  "row_pages (gi_entered s) = row_pages s"
  "row_ready (gi_entered s) = row_ready s"
  "trace (gi_entered s) =
     trace s @ (if cache_info s (gi_key s) = None then [CacheCreated (gi_key s)] else []) @
     [SourceReset ''.row.page'']"
  "map_option src_obj (sparse_page_source (gi_entered s)) = map_option src_obj (sparse_page_source s)"
  by (simp_all add: gi_entered_def gi_lookup_trace option.map_comp comp_def)

lemma gi_entered_cache_info:
  "cache_info (gi_entered s) = cache_info (gi_lookup s)"
  by (simp add: gi_entered_def)

lemma fresh_gi_cache_gi_entered [simp]: "fresh_gi_cache (gi_entered s) = fresh_gi_cache s"
  by (simp add: fresh_gi_cache_def gi_entered_def)

lemma new_gi_source_gi_entered [simp]: "new_gi_source e prm (gi_entered s) = new_gi_source e prm s"
  by (simp add: new_gi_source_def)

lemma gi_rebuilt_fields:
  "trace (gi_rebuilt e prm u) =
     trace u @ [CacheErased (gi_key u), CacheCreated (gi_key u), Sketched (max_bin prm) (regen prm),
                SourceReset ''.row.page'', SourceReset ''.row.page'',
                SourceCreated ''.gradient_index.page'']"
  "cache_info (gi_rebuilt e prm u) (gi_key u) = Some (fresh_gi_cache u)"
  "ghist_index_source (gi_rebuilt e prm u) = Some (new_gi_source e prm u)"
  "batch_param (gi_rebuilt e prm u) = prm"
  "map_option src_obj (sparse_page_source (gi_rebuilt e prm u)) =
     map_option src_obj (sparse_page_source u)"
  "row_ready (gi_rebuilt e prm u) = row_ready u"
  by (simp_all add: gi_rebuilt_def option.map_comp comp_def)

text \<open>
  Claim C3. In the on-disk regime (row weighting present or regeneration forced, at least two
  bins), on a constructed matrix: if the histogram-index cache entry is missing or not fully
  written, or the parameters differ from the last-used ones, or regeneration is forced, the
  entry is erased and created afresh, the cuts are sketched over the row pages with the
  sorted flag equal to the regeneration flag, and a new histogram-index source takes the
  place of the old one, bound to these cuts, the feature types, the density flag, the fresh
  entry and the row-page source of the matrix (the call fails if the cuts are empty).
  Otherwise the existing source is reset, and nothing else changes but the position of the
  row-page source.
\<close>

theorem on_disk_index_rebuild:
  assumes "row_ready s" and "hess prm \<noteq> [] \<or> regen prm" and "2 \<le> max_bin prm"
  shows
    "(on_disk_rebuild prm s \<and>
      Size (sketch e (row_pages s) (max_bin prm) (regen prm) (hess prm)) \<noteq> 0 \<longrightarrow>
        fst (GetGradientIndex e prm s) = Inr (BatchIterator (Some (next_obj s))) \<and>
        trace (snd (GetGradientIndex e prm s)) =
          trace s @ (if cache_info s (gi_key s) = None then [CacheCreated (gi_key s)] else []) @
          [SourceReset ''.row.page'', CacheErased (gi_key s), CacheCreated (gi_key s),
           Sketched (max_bin prm) (regen prm), SourceReset ''.row.page'',
           SourceReset ''.row.page'', SourceCreated ''.gradient_index.page''] \<and>
        cache_info (snd (GetGradientIndex e prm s)) (gi_key s) =
          Some \<lparr>written = False, name = MakeId (cache_prefix s) (self s),
                format = ''.gradient_index.page''\<rparr> \<and>
        ghist_index_source (snd (GetGradientIndex e prm s)) =
          Some \<lparr>inc_obj = next_obj s, inc_cache = gi_key s, inc_missing = missing s,
                inc_nthreads = Threads e (nthread s), inc_n_features = num_col (info s),
                inc_n_batches = n_batches s,
                inc_source = map_option src_obj (sparse_page_source (snd (GetGradientIndex e prm s))),
                inc_count = 0, gi_param = prm,
                gi_cuts = \<lparr>Values = sketch e (row_pages s) (max_bin prm) (regen prm) (hess prm)\<rparr>,
                gi_is_dense = IsDense e (info s), gi_max_bin_per_feat = max_bin prm,
                gi_feature_types = feature_types (info s)\<rparr> \<and>
        batch_param (snd (GetGradientIndex e prm s)) = prm) \<and>
     (on_disk_rebuild prm s \<and>
      Size (sketch e (row_pages s) (max_bin prm) (regen prm) (hess prm)) = 0 \<longrightarrow>
        fst (GetGradientIndex e prm s) = Inl (CheckFailed CutsNonEmpty)) \<and>
     (\<not> on_disk_rebuild prm s \<longrightarrow>
        (ghist_index_source s = None \<longrightarrow>
           fst (GetGradientIndex e prm s) = Inl (CheckFailed GHistIndexSourceSet)) \<and>
        (\<forall>g. ghist_index_source s = Some g \<longrightarrow>
           fst (GetGradientIndex e prm s) = Inr (BatchIterator (Some (inc_obj g))) \<and>
           ghist_index_source (snd (GetGradientIndex e prm s)) = Some (g\<lparr>inc_count := 0\<rparr>) \<and>
           trace (snd (GetGradientIndex e prm s)) =
             trace s @ [SourceReset ''.row.page'', SourceReset ''.gradient_index.page''] \<and>
           cache_info (snd (GetGradientIndex e prm s)) = cache_info s \<and>
           batch_param (snd (GetGradientIndex e prm s)) = batch_param s))"
proof -
  note g = GetGradientIndex_on_disk [OF assms, of e]
  let ?r = "GetGradientIndex e prm s"
  let ?nz = "Size (sketch e (row_pages s) (max_bin prm) (regen prm) (hess prm)) \<noteq> 0"
  have 1: "fst ?r = Inr (BatchIterator (Some (next_obj s))) \<and>
        trace (snd ?r) =
          trace s @ (if cache_info s (gi_key s) = None then [CacheCreated (gi_key s)] else []) @
          [SourceReset ''.row.page'', CacheErased (gi_key s), CacheCreated (gi_key s),
           Sketched (max_bin prm) (regen prm), SourceReset ''.row.page'',
           SourceReset ''.row.page'', SourceCreated ''.gradient_index.page''] \<and>
        cache_info (snd ?r) (gi_key s) =
          Some \<lparr>written = False, name = MakeId (cache_prefix s) (self s),
                format = ''.gradient_index.page''\<rparr> \<and>
        ghist_index_source (snd ?r) =
          Some \<lparr>inc_obj = next_obj s, inc_cache = gi_key s, inc_missing = missing s,
                inc_nthreads = Threads e (nthread s), inc_n_features = num_col (info s),
                inc_n_batches = n_batches s,
                inc_source = map_option src_obj (sparse_page_source (snd ?r)),
                inc_count = 0, gi_param = prm,
                gi_cuts = \<lparr>Values = sketch e (row_pages s) (max_bin prm) (regen prm) (hess prm)\<rparr>,
                gi_is_dense = IsDense e (info s), gi_max_bin_per_feat = max_bin prm,
                gi_feature_types = feature_types (info s)\<rparr> \<and>
        batch_param (snd ?r) = prm"
    if "on_disk_rebuild prm s" and ?nz
  proof -
    have r: "?r = (Inr (BatchIterator (Some (next_obj s))), gi_rebuilt e prm (gi_entered s))"
      using g that by simp
    have k: "gi_key (gi_entered s) = gi_key s" by simp
    show ?thesis
      using gi_rebuilt_fields [of e prm "gi_entered s"]
      by (simp add: r new_gi_source_def fresh_gi_cache_def)
  qed
  have 2: "fst ?r = Inl (CheckFailed CutsNonEmpty)"
    if "on_disk_rebuild prm s" and "\<not> ?nz"
    using g that by simp
  have 3: "fst ?r = Inl (CheckFailed GHistIndexSourceSet)"
    if "\<not> on_disk_rebuild prm s" and "ghist_index_source s = None"
    using g that by simp
  have 4: "fst ?r = Inr (BatchIterator (Some (inc_obj g'))) \<and>
           ghist_index_source (snd ?r) = Some (g'\<lparr>inc_count := 0\<rparr>) \<and>
           trace (snd ?r) =
             trace s @ [SourceReset ''.row.page'', SourceReset ''.gradient_index.page''] \<and>
           cache_info (snd ?r) = cache_info s \<and>
           batch_param (snd ?r) = batch_param s"
    if n: "\<not> on_disk_rebuild prm s" and s: "ghist_index_source s = Some g'" for g'
  proof -
    from n have "cache_info s (gi_key s) \<noteq> None"
      by (simp add: on_disk_rebuild_def)
    then have "gi_lookup s = s"
      by (auto simp: gi_lookup_def)
    then show ?thesis
      using g n s by (simp add: gi_entered_def)
  qed
  show ?thesis
    using 1 2 3 4 by blast
qed

subsection \<open>Column batches, and the calls to the iterator\<close>

lemma MakeCache_looked_up: "MakeCache fmt s = (Inr (cache_key fmt s), looked_up fmt s)"
  by (simp add: looked_up_def cache_key_def MakeCache_def Let_def split: option.splits)

lemma looked_up_fields [simp]:
  "info (looked_up fmt s) = info s"
  "cache_prefix (looked_up fmt s) = cache_prefix s"
  "self (looked_up fmt s) = self s"
  "disk (looked_up fmt s) = disk s"
  "batch_param (looked_up fmt s) = batch_param s"
  "ghist_index_page (looked_up fmt s) = ghist_index_page s"
  "ghist_index_source (looked_up fmt s) = ghist_index_source s"
  "column_source (looked_up fmt s) = column_source s"
  "sorted_column_source (looked_up fmt s) = sorted_column_source s"
  "next_obj (looked_up fmt s) = next_obj s"
  "missing (looked_up fmt s) = missing s"
  "nthread (looked_up fmt s) = nthread s"
  "n_batches (looked_up fmt s) = n_batches s"
  "sparse_page_source (looked_up fmt s) = sparse_page_source s"
  by (simp_all add: looked_up_def MakeCache_def Let_def log_event_def split: option.splits)

lemma looked_up_derived [simp]:
  "row_key (looked_up fmt s) = row_key s"
  "row_pages (looked_up fmt s) = row_pages s"
  by (simp_all add: row_key_def row_pages_def)

lemma looked_up_trace:
  "trace (looked_up fmt s) =
     trace s @ (if cache_info s (cache_key fmt s) = None then [CacheCreated (cache_key fmt s)] else [])"
  by (simp add: looked_up_def cache_key_def MakeCache_def Let_def log_event_def split: option.splits)

lemma looked_up_present: "cache_info s (cache_key fmt s) \<noteq> None \<Longrightarrow> looked_up fmt s = s"
  by (auto simp: looked_up_def cache_key_def MakeCache_def Let_def)

lemma looked_up_entry: "\<exists>c. cache_info (looked_up fmt s) (cache_key fmt s) = Some c"
  by (simp add: looked_up_def cache_key_def MakeCache_def Let_def log_event_def split: option.splits)

lemma row_ready_looked_up [simp]: "row_ready (looked_up fmt s) = row_ready s"
  by (cases "cache_key fmt s = row_key s")
     (auto simp: row_ready_def cache_written_def looked_up_def cache_key_def MakeCache_def
        Let_def log_event_def row_key_def split: option.splits)

lemma iter_calls_append [simp]:
  "iter_calls (s\<lparr>trace := trace s @ t\<rparr>) =
     iter_calls s + length (filter (\<lambda>ev. ev = IterReset \<or> ev = IterNext) t)"
  by (simp add: iter_calls_def)

lemma iter_calls_trace: "trace s' = trace s @ t \<Longrightarrow>
     iter_calls s' = iter_calls s + length (filter (\<lambda>ev. ev = IterReset \<or> ev = IterNext) t)"
  by (simp add: iter_calls_def)

lemma GetColumnBatches_ready:
  assumes "row_ready s" and "num_col (info s) \<noteq> 0"
  shows "GetColumnBatches e s =
     (case column_source s of
        None \<Rightarrow>
          (Inr (BatchIterator (Some (next_obj s))),
           (log_event (SourceCreated ''.col.page'') (col_entered ''.col.page'' s))
             \<lparr>next_obj := Suc (next_obj s),
              column_source :=
                Some \<lparr>inc_obj = next_obj s, inc_cache = cache_key ''.col.page'' s,
                      inc_missing = missing s, inc_nthreads = Threads e (nthread s),
                      inc_n_features = num_col (info s), inc_n_batches = n_batches s,
                      inc_source = map_option src_obj (sparse_page_source s), inc_count = 0\<rparr>\<rparr>)
      | Some c \<Rightarrow>
          (Inr (BatchIterator (Some (inc_obj c))),
           (log_event (SourceReset ''.col.page'') (col_entered ''.col.page'' s))
             \<lparr>column_source := Some (c\<lparr>inc_count := 0\<rparr>)\<rparr>))"
proof -
  let ?l = "looked_up ''.col.page'' s"
  have rl: "row_ready ?l" using assms(1) by simp
  have init: "InitializeSparsePage e ?l = (Inr (), col_entered ''.col.page'' s)"
    unfolding col_entered_def by (rule InitializeSparsePage_ready [OF rl])
  obtain c where c: "cache_info ?l (cache_key ''.col.page'' s) = Some c"
    using looked_up_entry by blast
  show ?thesis
    using assms(2) c
    by (cases "column_source s")
       (simp_all add: GetColumnBatches_def bindM_def MakeCache_looked_up CHECK_def init
          cache_at_def PageSourceIncMixIn_new_def PageSourceIncMixIn_Reset_def modify_def gets_def
          col_entered_def option.map_comp comp_def log_event_def)
qed

lemma GetSortedColumnBatches_ready:
  assumes "row_ready s" and "num_col (info s) \<noteq> 0"
  shows "GetSortedColumnBatches e s =
     (case sorted_column_source s of
        None \<Rightarrow>
          (Inr (BatchIterator (Some (next_obj s))),
           (log_event (SourceCreated ''.sorted.col.page'') (col_entered ''.sorted.col.page'' s))
             \<lparr>next_obj := Suc (next_obj s),
              sorted_column_source :=
                Some \<lparr>inc_obj = next_obj s, inc_cache = cache_key ''.sorted.col.page'' s,
                      inc_missing = missing s, inc_nthreads = Threads e (nthread s),
                      inc_n_features = num_col (info s), inc_n_batches = n_batches s,
                      inc_source = map_option src_obj (sparse_page_source s), inc_count = 0\<rparr>\<rparr>)
      | Some c \<Rightarrow>
          (Inr (BatchIterator (Some (inc_obj c))),
           (log_event (SourceReset ''.sorted.col.page'') (col_entered ''.sorted.col.page'' s))
             \<lparr>sorted_column_source := Some (c\<lparr>inc_count := 0\<rparr>)\<rparr>))"
proof -
  let ?l = "looked_up ''.sorted.col.page'' s"
  have rl: "row_ready ?l" using assms(1) by simp
  have init: "InitializeSparsePage e ?l = (Inr (), col_entered ''.sorted.col.page'' s)"
    unfolding col_entered_def by (rule InitializeSparsePage_ready [OF rl])
  obtain c where c: "cache_info ?l (cache_key ''.sorted.col.page'' s) = Some c"
    using looked_up_entry by blast
  show ?thesis
    using assms(2) c
    by (cases "sorted_column_source s")
       (simp_all add: GetSortedColumnBatches_def bindM_def MakeCache_looked_up CHECK_def init
          cache_at_def PageSourceIncMixIn_new_def PageSourceIncMixIn_Reset_def modify_def gets_def
          col_entered_def option.map_comp comp_def log_event_def)
qed

lemma col_entered_trace:
  "trace (col_entered fmt s) =
     trace s @ (if cache_info s (cache_key fmt s) = None then [CacheCreated (cache_key fmt s)] else [])
       @ [SourceReset ''.row.page'']"
  by (simp add: col_entered_def looked_up_trace)

lemma drain_no_trace:
  assumes "row_ready s"
  shows "trace (snd (drain (reposition j t s))) = trace (reposition j t s)"
  by (simp add: drain_reposition [OF assms])

lemma next_n_reposition:
  assumes "row_ready s"
  shows "(SparsePageSource_next ^^ n) (reposition j t s) = reposition (j + n) t s"
  by (induction n) (simp_all add: next_reposition [OF assms])

text \<open>
  Claim C6. On a constructed matrix, "get row batches" returns an iterator on the row-page
  source of the matrix, positioned on the first page: reading it to the end yields all row
  pages of the cache file. After the first iterator has advanced by any number of pages (it
  then has only the remaining pages before it), a second call returns an iterator that again
  yields all the row pages, the same sequence, from the first page.
\<close>

theorem row_batches_restart:
  assumes "row_ready s"
  shows "fst (GetRowBatches e s) = Inr (BatchIterator (map_option src_obj (sparse_page_source s))) \<and>
         fst (drain (snd (GetRowBatches e s))) = row_pages s \<and>
         fst (drain ((SparsePageSource_next ^^ n) (snd (GetRowBatches e s)))) = drop n (row_pages s) \<and>
         fst (GetRowBatches e ((SparsePageSource_next ^^ n) (snd (GetRowBatches e s)))) =
           fst (GetRowBatches e s) \<and>
         fst (drain (snd (GetRowBatches e ((SparsePageSource_next ^^ n) (snd (GetRowBatches e s))))))
           = row_pages s"
proof -
  let ?t = "[SourceReset ''.row.page'']"
  have r1: "GetRowBatches e s =
      (Inr (BatchIterator (map_option src_obj (sparse_page_source s))), reposition 0 ?t s)"
    by (rule GetRowBatches_ready [OF assms])
  have adv: "(SparsePageSource_next ^^ n) (reposition 0 ?t s) = reposition n ?t s"
    using next_n_reposition [OF assms, of n 0 ?t] by simp
  have rn: "row_ready (reposition n ?t s)" using assms by simp
  have r2: "GetRowBatches e (reposition n ?t s) =
      (Inr (BatchIterator (map_option src_obj (sparse_page_source s))), reposition 0 (?t @ ?t) s)"
    using GetRowBatches_ready [OF rn, of e] by (simp add: option.map_comp comp_def)
  show ?thesis
    by (simp add: r1 adv r2 drain_reposition [OF assms] row_pages_def)
qed

lemma constructed_row_pages:
  assumes "fst (SparsePageDMatrix_new e ptr bs ph mis nt pfx) = Inr ()"
  shows "row_pages (snd (SparsePageDMatrix_new e ptr bs ph mis nt pfx)) = map page bs"
proof -
  let ?s = "snd (SparsePageDMatrix_new e ptr bs ph mis nt pfx)"
  from ctor_outcome(2) [OF assms] have "pass_done (row_key ?s) bs ?s" by simp
  then show ?thesis by (simp add: pass_done_def row_pages_def)
qed

lemma Commit_fields [simp]:
  "info (Commit k s) = info s"
  "cache_prefix (Commit k s) = cache_prefix s"
  "self (Commit k s) = self s"
  "disk (Commit k s) = disk s"
  "batch_param (Commit k s) = batch_param s"
  "ghist_index_page (Commit k s) = ghist_index_page s"
  "ghist_index_source (Commit k s) = ghist_index_source s"
  "column_source (Commit k s) = column_source s"
  "sorted_column_source (Commit k s) = sorted_column_source s"
  "next_obj (Commit k s) = next_obj s"
  "sparse_page_source (Commit k s) = sparse_page_source s"
  "trace (Commit k s) = trace s"
  by (simp_all add: Commit_def split: option.splits)

lemma Commit_derived [simp]:
  "row_key (Commit k s) = row_key s"
  "gi_key (Commit k s) = gi_key s"
  "cache_key fmt (Commit k s) = cache_key fmt s"
  "row_pages (Commit k s) = row_pages s"
  by (simp_all add: row_key_def gi_key_def cache_key_def row_pages_def)

lemma cache_written_Commit:
  "cache_written (Commit k s) k' = (cache_written s k' \<or> (k' = k \<and> cache_info s k \<noteq> None))"
  by (auto simp: cache_written_def Commit_def split: option.splits)

lemma cache_info_Commit_None:
  "(cache_info (Commit k s) k' = None) = (cache_info s k' = None)"
  by (auto simp: Commit_def split: option.splits)

lemma row_ready_Commit: "row_ready s \<Longrightarrow> row_ready (Commit k s)"
  by (auto simp: row_ready_def cache_written_Commit split: option.splits)

lemma gi_rebuilt_more [simp]:
  "gi_key (gi_rebuilt e prm u) = gi_key u"
  "row_key (gi_rebuilt e prm u) = row_key u"
  "next_obj (gi_rebuilt e prm u) = Suc (next_obj u)"
  "info (gi_rebuilt e prm u) = info u"
  "column_source (gi_rebuilt e prm u) = column_source u"
  "sorted_column_source (gi_rebuilt e prm u) = sorted_column_source u"
  by (simp_all add: gi_rebuilt_def gi_key_def row_key_def)

lemma gi_entered_more [simp]:
  "column_source (gi_entered s) = column_source s"
  "sorted_column_source (gi_entered s) = sorted_column_source s"
  by (simp_all add: gi_entered_def)

lemma col_entered_fields [simp]:
  "info (col_entered fmt s) = info s"
  "cache_prefix (col_entered fmt s) = cache_prefix s"
  "self (col_entered fmt s) = self s"
  "row_ready (col_entered fmt s) = row_ready s"
  "cache_info (col_entered fmt s) = cache_info (looked_up fmt s)"
  by (simp_all add: col_entered_def)

lemma looked_up_row_entry:
  "row_ready s \<Longrightarrow> cache_written (looked_up fmt s) (row_key s)"
  using row_ready_looked_up [of fmt s] by (simp add: row_ready_def)

lemma GetColumnBatches_after:
  assumes "row_ready s" and "num_col (info s) \<noteq> 0"
  shows "row_ready (snd (GetColumnBatches e s)) \<and>
         info (snd (GetColumnBatches e s)) = info s \<and>
         cache_key fmt (snd (GetColumnBatches e s)) = cache_key fmt s \<and>
         cache_info (snd (GetColumnBatches e s)) (cache_key ''.col.page'' s) \<noteq> None \<and>
         column_source (snd (GetColumnBatches e s)) \<noteq> None"
proof (cases "column_source s")
  case None
  show ?thesis
    using assms(1) looked_up_entry [of "''.col.page''" s]
    by (auto simp: GetColumnBatches_ready [OF assms] None cache_key_def log_event_def)
next
  case (Some c)
  show ?thesis
    using assms(1) looked_up_entry [of "''.col.page''" s]
    by (auto simp: GetColumnBatches_ready [OF assms] Some cache_key_def log_event_def)
qed

lemma GetSortedColumnBatches_after:
  assumes "row_ready s" and "num_col (info s) \<noteq> 0"
  shows "row_ready (snd (GetSortedColumnBatches e s)) \<and>
         info (snd (GetSortedColumnBatches e s)) = info s \<and>
         cache_key fmt (snd (GetSortedColumnBatches e s)) = cache_key fmt s \<and>
         cache_info (snd (GetSortedColumnBatches e s)) (cache_key ''.sorted.col.page'' s) \<noteq> None \<and>
         sorted_column_source (snd (GetSortedColumnBatches e s)) \<noteq> None"
proof (cases "sorted_column_source s")
  case None
  show ?thesis
    using assms(1) looked_up_entry [of "''.sorted.col.page''" s]
    by (auto simp: GetSortedColumnBatches_ready [OF assms] None cache_key_def log_event_def)
next
  case (Some c)
  show ?thesis
    using assms(1) looked_up_entry [of "''.sorted.col.page''" s]
    by (auto simp: GetSortedColumnBatches_ready [OF assms] Some cache_key_def log_event_def)
qed

lemma row_ready_trace_update2 [simp]:
  "row_ready (s\<lparr>trace := t, column_source := c\<rparr>) = row_ready s"
  "row_ready (s\<lparr>trace := t, sorted_column_source := c\<rparr>) = row_ready s"
  "row_ready (s\<lparr>trace := t, next_obj := n, column_source := c\<rparr>) = row_ready s"
  "row_ready (s\<lparr>trace := t, next_obj := n, sorted_column_source := c\<rparr>) = row_ready s"
  by (auto simp: row_ready_def cache_written_def row_key_def split: option.splits)

subsection \<open>Requests replay the written row cache\<close>

lemma replays_onlyI:
  assumes "trace s' = trace s @ t" and "quiet t" and "row_frame s s'" and "row_ready s'"
  shows "replays_only s s'"
proof -
  have "filter (\<lambda>ev. ev = IterReset \<or> ev = IterNext) t = []"
    and "filter (\<lambda>ev. ev = SourceCreated ''.row.page'') t = []"
    using assms(2) by (auto simp: quiet_def filter_empty_conv)
  then show ?thesis
    using assms by (simp add: replays_only_def iter_calls_def row_sources_created_def)
qed

lemma row_frame_refl [simp]: "row_frame s s"
  by (simp add: row_frame_def)

lemma row_frame_reposition [simp]: "row_frame s (reposition j t u) = row_frame s u"
  by (simp add: row_frame_def reposition_def option.map_comp comp_def)

lemma row_frame_looked_up [simp]: "row_frame s (looked_up fmt u) = row_frame s u"
  by (simp add: row_frame_def looked_up_def MakeCache_def Let_def log_event_def
      split: option.splits)

lemma row_frame_put_cache [simp]: "row_frame s (put_cache t u) = row_frame s u"
  by (simp add: row_frame_def put_cache_def)

lemma row_frame_gi_lookup [simp]: "row_frame s (gi_lookup u) = row_frame s u"
  by (simp add: gi_lookup_def split: option.splits)

lemma row_frame_log_event [simp]: "row_frame s (log_event ev u) = row_frame s u"
  by (simp add: row_frame_def log_event_def)

lemma row_frame_updates [simp]:
  "row_frame s (u\<lparr>batch_param := bp\<rparr>) = row_frame s u"
  "row_frame s (u\<lparr>ghist_index_page := gp\<rparr>) = row_frame s u"
  "row_frame s (u\<lparr>ghist_index_source := gs\<rparr>) = row_frame s u"
  "row_frame s (u\<lparr>column_source := cs\<rparr>) = row_frame s u"
  "row_frame s (u\<lparr>sorted_column_source := cs\<rparr>) = row_frame s u"
  "row_frame s (u\<lparr>next_obj := n\<rparr>) = row_frame s u"
  by (simp_all add: row_frame_def)

lemma row_frame_entered [simp]:
  "row_frame s (col_entered fmt u) = row_frame s u"
  "row_frame s (gi_entered u) = row_frame s u"
  "row_frame s (gi_rebuilt e prm u) = row_frame s u"
  "row_frame s (gi_rebuild_failed e prm u) = row_frame s u"
  by (simp_all add: col_entered_def gi_entered_def gi_rebuilt_def gi_rebuild_failed_def)

lemma quiet_simps [simp]:
  "quiet []"
  "quiet (t @ u) = (quiet t \<and> quiet u)"
  "quiet (ev # t) = (ev \<noteq> IterReset \<and> ev \<noteq> IterNext \<and> ev \<noteq> SourceCreated ''.row.page'' \<and> quiet t)"
  by (auto simp: quiet_def)

lemma GetRowBatches_replays:
  assumes "row_ready s"
  shows "replays_only s (snd (GetRowBatches e s))"
  using assms
  by (intro replays_onlyI [where t = "[SourceReset ''.row.page'']"])
     (simp_all add: GetRowBatches_ready [OF assms])

lemma GetColumnBatches_replays:
  assumes "row_ready s"
  shows "replays_only s (snd (GetColumnBatches e s))"
proof (cases "num_col (info s) = 0")
  case True
  have z: "GetColumnBatches e s = (Inl (CheckFailed NumColNonzero), looked_up ''.col.page'' s)"
    by (simp add: GetColumnBatches_zero [OF True] looked_up_def)
  show ?thesis
    using assms
    by (intro replays_onlyI [where t = "if cache_info s (cache_key ''.col.page'' s) = None
          then [CacheCreated (cache_key ''.col.page'' s)] else []"])
       (simp_all add: z looked_up_trace)
next
  case False
  show ?thesis
  proof (cases "column_source s")
    case None
    show ?thesis
      using assms
      by (intro replays_onlyI [where t = "(if cache_info s (cache_key ''.col.page'' s) = None
            then [CacheCreated (cache_key ''.col.page'' s)] else [])
            @ [SourceReset ''.row.page'', SourceCreated ''.col.page'']"])
         (simp_all add: GetColumnBatches_ready [OF assms False] None col_entered_trace)
  next
    case (Some c)
    show ?thesis
      using assms
      by (intro replays_onlyI [where t = "(if cache_info s (cache_key ''.col.page'' s) = None
            then [CacheCreated (cache_key ''.col.page'' s)] else [])
            @ [SourceReset ''.row.page'', SourceReset ''.col.page'']"])
         (simp_all add: GetColumnBatches_ready [OF assms False] Some col_entered_trace)
  qed
qed

lemma GetSortedColumnBatches_replays:
  assumes "row_ready s"
  shows "replays_only s (snd (GetSortedColumnBatches e s))"
proof (cases "num_col (info s) = 0")
  case True
  have z: "GetSortedColumnBatches e s =
      (Inl (CheckFailed NumColNonzero), looked_up ''.sorted.col.page'' s)"
    by (simp add: GetSortedColumnBatches_zero [OF True] looked_up_def)
  show ?thesis
    using assms
    by (intro replays_onlyI [where t = "if cache_info s (cache_key ''.sorted.col.page'' s) = None
          then [CacheCreated (cache_key ''.sorted.col.page'' s)] else []"])
       (simp_all add: z looked_up_trace)
next
  case False
  show ?thesis
  proof (cases "sorted_column_source s")
    case None
    show ?thesis
      using assms
      by (intro replays_onlyI [where t = "(if cache_info s (cache_key ''.sorted.col.page'' s) = None
            then [CacheCreated (cache_key ''.sorted.col.page'' s)] else [])
            @ [SourceReset ''.row.page'', SourceCreated ''.sorted.col.page'']"])
         (simp_all add: GetSortedColumnBatches_ready [OF assms False] None col_entered_trace)
  next
    case (Some c)
    show ?thesis
      using assms
      by (intro replays_onlyI [where t = "(if cache_info s (cache_key ''.sorted.col.page'' s) = None
            then [CacheCreated (cache_key ''.sorted.col.page'' s)] else [])
            @ [SourceReset ''.row.page'', SourceReset ''.sorted.col.page'']"])
         (simp_all add: GetSortedColumnBatches_ready [OF assms False] Some col_entered_trace)
  qed
qed

lemma GetGradientIndex_replays:
  assumes "row_ready s"
  shows "replays_only s (snd (GetGradientIndex e prm s))"
proof -
  consider (small) "max_bin prm < 2"
    | (mem_keep) "2 \<le> max_bin prm" "hess prm = []" "\<not> regen prm" "\<not> in_memory_rebuild prm s"
    | (mem_build) "2 \<le> max_bin prm" "hess prm = []" "\<not> regen prm" "in_memory_rebuild prm s"
    | (disk) "2 \<le> max_bin prm" "hess prm \<noteq> [] \<or> regen prm"
    by fastforce
  then show ?thesis
  proof cases
    case small
    then have "GetGradientIndex e prm s = (Inl (CheckFailed MaxBinAtLeast2), s)"
      by (simp add: GetGradientIndex_def bindM_def CHECK_def)
    then show ?thesis
      using assms by (intro replays_onlyI [where t = "[]"]) simp_all
  next
    case mem_keep
    then show ?thesis
      using assms
      by (intro replays_onlyI [where t = "[]"]) (simp_all add: GetGradientIndex_in_memory_keep)
  next
    case mem_build
    show ?thesis
      using assms
      by (intro replays_onlyI [where t = "[SourceReset ''.row.page'',
            GHistIndexBuilt (max_bin prm) False, Sketched (max_bin prm) False,
            SourceReset ''.row.page'', SourceReset ''.row.page'', SourceReset ''.row.page'']"])
         (simp_all add: GetGradientIndex_in_memory_rebuild
            [OF assms mem_build(2) mem_build(3) mem_build(1) mem_build(4)])
  next
    case disk
    note g = GetGradientIndex_on_disk [OF assms disk(2) disk(1), of e]
    let ?t0 = "(if cache_info s (gi_key s) = None then [CacheCreated (gi_key s)] else [])
                 @ [SourceReset ''.row.page'']"
    let ?nz = "Size (sketch e (row_pages s) (max_bin prm) (regen prm) (hess prm)) \<noteq> 0"
    consider (built) "on_disk_rebuild prm s" ?nz
      | (failed) "on_disk_rebuild prm s" "\<not> ?nz"
      | (none) "\<not> on_disk_rebuild prm s" "ghist_index_source s = None"
      | (reset) g' where "\<not> on_disk_rebuild prm s" "ghist_index_source s = Some g'"
      by (cases "ghist_index_source s") auto
    then show ?thesis
    proof cases
      case built
      show ?thesis
        using assms
        by (intro replays_onlyI [where t = "?t0 @ [CacheErased (gi_key s), CacheCreated (gi_key s),
              Sketched (max_bin prm) (regen prm), SourceReset ''.row.page'',
              SourceReset ''.row.page'', SourceCreated ''.gradient_index.page'']"])
           (simp_all add: g built gi_rebuilt_fields)
    next
      case failed
      show ?thesis
        using assms
        by (intro replays_onlyI [where t = "?t0 @ [CacheErased (gi_key s), CacheCreated (gi_key s),
              Sketched (max_bin prm) (regen prm), SourceReset ''.row.page'',
              SourceReset ''.row.page'']"])
           (simp_all add: g failed gi_rebuild_failed_def)
    next
      case none
      show ?thesis
        using assms by (intro replays_onlyI [where t = ?t0]) (simp_all add: g none)
    next
      case reset
      show ?thesis
        using assms
        by (intro replays_onlyI [where t = "?t0 @ [SourceReset ''.gradient_index.page'']"])
           (simp_all add: g reset)
    qed
  qed
qed

text \<open>
  Claim C5. On a matrix whose row-page cache entry is fully written and whose row-page source
  is bound to it (every state of a constructed matrix), a request for row, column,
  sorted-column or histogram-index batches, whatever its parameters and whether it returns or
  fails, never calls the user's iterator and never constructs a row-page source: the existing
  row-page source stays in place and is only reset, the cache file, the iterator and the
  staging proxy are untouched, and the entry stays written. The state after "get row
  batches" is the state before with the source put back on the first page, and reading the
  batches then replays the pages of the cache file, again without any call to the iterator.
  Where the entry of a derived format is fully written and its source exists, the request for
  that format resets the row-page source and that source and does nothing else (for the
  histogram index: the request of the on-disk regime with the last-used parameters and no
  forced regeneration).
\<close>

theorem written_cache_replay:
  assumes "row_ready s"
  shows
    "replays_only s (snd (GetRowBatches e s)) \<and>
     replays_only s (snd (GetColumnBatches e s)) \<and>
     replays_only s (snd (GetSortedColumnBatches e s)) \<and>
     replays_only s (snd (GetGradientIndex e prm s)) \<and>
     GetRowBatches e s =
       (Inr (BatchIterator (map_option src_obj (sparse_page_source s))),
        reposition 0 [SourceReset ''.row.page''] s) \<and>
     drain (snd (GetRowBatches e s)) =
       (row_pages s, reposition (length (row_pages s)) [SourceReset ''.row.page''] s) \<and>
     replays_only s (snd (drain (snd (GetRowBatches e s)))) \<and>
     iter_calls (snd (GetRowBatches e s)) = iter_calls s \<and>
     iter_calls (snd (GetColumnBatches e s)) = iter_calls s \<and>
     iter_calls (snd (GetSortedColumnBatches e s)) = iter_calls s \<and>
     iter_calls (snd (GetGradientIndex e prm s)) = iter_calls s \<and>
     fst (GetRowBatches e s) = Inr (BatchIterator (map_option src_obj (sparse_page_source s))) \<and>
     trace (snd (GetRowBatches e s)) = trace s @ [SourceReset ''.row.page''] \<and>
     trace (snd (drain (snd (GetRowBatches e s)))) = trace (snd (GetRowBatches e s)) \<and>
     (num_col (info s) \<noteq> 0 \<longrightarrow>
        (\<forall>c. cache_written s (cache_key ''.col.page'' s) \<and> column_source s = Some c \<longrightarrow>
           fst (GetColumnBatches e s) = Inr (BatchIterator (Some (inc_obj c))) \<and>
           column_source (snd (GetColumnBatches e s)) = Some (c\<lparr>inc_count := 0\<rparr>) \<and>
           trace (snd (GetColumnBatches e s)) =
             trace s @ [SourceReset ''.row.page'', SourceReset ''.col.page'']) \<and>
        (\<forall>c. cache_written s (cache_key ''.sorted.col.page'' s) \<and> sorted_column_source s = Some c \<longrightarrow>
           fst (GetSortedColumnBatches e s) = Inr (BatchIterator (Some (inc_obj c))) \<and>
           sorted_column_source (snd (GetSortedColumnBatches e s)) = Some (c\<lparr>inc_count := 0\<rparr>) \<and>
           trace (snd (GetSortedColumnBatches e s)) =
             trace s @ [SourceReset ''.row.page'', SourceReset ''.sorted.col.page''])) \<and>
     (2 \<le> max_bin prm \<and> (hess prm \<noteq> [] \<or> regen prm) \<longrightarrow>
        (\<forall>g. cache_written s (gi_key s) \<and> ghist_index_source s = Some g \<and>
              \<not> BatchParam_ne (batch_param s) prm \<and> \<not> regen prm \<longrightarrow>
           fst (GetGradientIndex e prm s) = Inr (BatchIterator (Some (inc_obj g))) \<and>
           ghist_index_source (snd (GetGradientIndex e prm s)) = Some (g\<lparr>inc_count := 0\<rparr>) \<and>
           trace (snd (GetGradientIndex e prm s)) =
             trace s @ [SourceReset ''.row.page'', SourceReset ''.gradient_index.page'']))"
proof -
  note row = GetRowBatches_ready [OF assms, of e]
  have 1: "fst (GetRowBatches e s) = Inr (BatchIterator (map_option src_obj (sparse_page_source s)))"
    and 2: "trace (snd (GetRowBatches e s)) = trace s @ [SourceReset ''.row.page'']"
    and 3: "drain (snd (GetRowBatches e s)) =
       (row_pages s, reposition (length (row_pages s)) [SourceReset ''.row.page''] s)"
    and 4: "trace (snd (drain (snd (GetRowBatches e s)))) = trace (snd (GetRowBatches e s))"
    by (simp_all add: row drain_reposition [OF assms] row_pages_def)
  have 5: "replays_only s (snd (drain (snd (GetRowBatches e s))))"
    using assms
    by (intro replays_onlyI [where t = "[SourceReset ''.row.page'']"]) (simp_all add: 3)
  have col: "fst (GetColumnBatches e s) = Inr (BatchIterator (Some (inc_obj c))) \<and>
           column_source (snd (GetColumnBatches e s)) = Some (c\<lparr>inc_count := 0\<rparr>) \<and>
           trace (snd (GetColumnBatches e s)) =
             trace s @ [SourceReset ''.row.page'', SourceReset ''.col.page'']"
    if "num_col (info s) \<noteq> 0" and "cache_written s (cache_key ''.col.page'' s)"
      and "column_source s = Some c" for c
  proof -
    from that(2) have "cache_info s (cache_key ''.col.page'' s) \<noteq> None"
      by (auto simp: cache_written_def split: option.splits)
    then show ?thesis
      using that(3)
      by (simp add: GetColumnBatches_ready [OF assms that(1)] col_entered_trace log_event_def)
  qed
  have sorted: "fst (GetSortedColumnBatches e s) = Inr (BatchIterator (Some (inc_obj c))) \<and>
           sorted_column_source (snd (GetSortedColumnBatches e s)) = Some (c\<lparr>inc_count := 0\<rparr>) \<and>
           trace (snd (GetSortedColumnBatches e s)) =
             trace s @ [SourceReset ''.row.page'', SourceReset ''.sorted.col.page'']"
    if "num_col (info s) \<noteq> 0" and "cache_written s (cache_key ''.sorted.col.page'' s)"
      and "sorted_column_source s = Some c" for c
  proof -
    from that(2) have "cache_info s (cache_key ''.sorted.col.page'' s) \<noteq> None"
      by (auto simp: cache_written_def split: option.splits)
    then show ?thesis
      using that(3)
      by (simp add: GetSortedColumnBatches_ready [OF assms that(1)] col_entered_trace log_event_def)
  qed
  have gi: "fst (GetGradientIndex e prm s) = Inr (BatchIterator (Some (inc_obj g))) \<and>
           ghist_index_source (snd (GetGradientIndex e prm s)) = Some (g\<lparr>inc_count := 0\<rparr>) \<and>
           trace (snd (GetGradientIndex e prm s)) =
             trace s @ [SourceReset ''.row.page'', SourceReset ''.gradient_index.page'']"
    if p: "2 \<le> max_bin prm" "hess prm \<noteq> [] \<or> regen prm"
      and w: "cache_written s (gi_key s)" and g: "ghist_index_source s = Some g"
      and same: "\<not> BatchParam_ne (batch_param s) prm" "\<not> regen prm" for g
  proof -
    from w have ex: "cache_info s (gi_key s) \<noteq> None"
      by (auto simp: cache_written_def split: option.splits)
    with w same have n: "\<not> on_disk_rebuild prm s"
      by (simp add: on_disk_rebuild_def)
    from ex have l: "gi_lookup s = s"
      by (auto simp: gi_lookup_def)
    show ?thesis
      using n g
      by (simp add: GetGradientIndex_on_disk [OF assms p(2) p(1)] gi_entered_def l log_event_def)
  qed
  note r = GetRowBatches_replays [OF assms, of e] GetColumnBatches_replays [OF assms, of e]
    GetSortedColumnBatches_replays [OF assms, of e] GetGradientIndex_replays [OF assms, of e prm]
  have ic: "iter_calls (snd (GetRowBatches e s)) = iter_calls s"
    "iter_calls (snd (GetColumnBatches e s)) = iter_calls s"
    "iter_calls (snd (GetSortedColumnBatches e s)) = iter_calls s"
    "iter_calls (snd (GetGradientIndex e prm s)) = iter_calls s"
    using r by (simp_all add: replays_only_def)
  show ?thesis
    using r row 1 2 3 4 5 ic col sorted gi by blast
qed

subsection \<open>What every request keeps\<close>

lemma row_ready_next: "row_ready s \<Longrightarrow> row_ready (SparsePageSource_next s)"
  by (auto simp: row_ready_def SparsePageSource_next_def Let_def cache_written_def row_key_def
      split: option.splits)

lemma row_ready_drain: "row_ready s \<Longrightarrow> row_ready (snd (drain s))"
proof (induction s rule: drain.induct)
  case (1 s)
  show ?case
  proof (cases "AtEnd s")
    case True
    then show ?thesis using 1(2) by (simp add: drain_unfold_end)
  next
    case False
    obtain ps s' where d: "drain (SparsePageSource_next s) = (ps, s')"
      by (cases "drain (SparsePageSource_next s)")
    have "row_ready (snd (drain (SparsePageSource_next s)))"
      using 1(1) [OF False] 1(2) by (simp add: row_ready_next)
    then show ?thesis
      by (simp add: drain_unfold_step [OF False d] d)
  qed
qed

lemma row_ready_invariant:
  assumes "row_ready s"
  shows "row_ready (snd (GetRowBatches e s))"
    and "row_ready (snd (GetColumnBatches e s))"
    and "row_ready (snd (GetSortedColumnBatches e s))"
    and "row_ready (snd (GetGradientIndex e prm s))"
    and "row_ready (snd (GetEllpackBatches prm s))"
proof -
  show "row_ready (snd (GetRowBatches e s))"
    using assms by (simp add: GetRowBatches_ready)
  show "row_ready (snd (GetColumnBatches e s))"
  proof (cases "num_col (info s) = 0")
    case True
    then show ?thesis
      using assms MakeCache_looked_up [of "''.col.page''" s] by (simp add: GetColumnBatches_zero)
  next
    case False
    then show ?thesis
      using GetColumnBatches_after [OF assms, of e] by simp
  qed
  show "row_ready (snd (GetSortedColumnBatches e s))"
  proof (cases "num_col (info s) = 0")
    case True
    then show ?thesis
      using assms MakeCache_looked_up [of "''.sorted.col.page''" s]
      by (simp add: GetSortedColumnBatches_zero)
  next
    case False
    then show ?thesis
      using GetSortedColumnBatches_after [OF assms, of e] by simp
  qed
  show "row_ready (snd (GetGradientIndex e prm s))"
  proof -
    consider (small) "max_bin prm < 2"
      | (mem_keep) "2 \<le> max_bin prm" "hess prm = []" "\<not> regen prm" "\<not> in_memory_rebuild prm s"
      | (mem_build) "2 \<le> max_bin prm" "hess prm = []" "\<not> regen prm" "in_memory_rebuild prm s"
      | (disk) "2 \<le> max_bin prm" "hess prm \<noteq> [] \<or> regen prm"
      by fastforce
    then show ?thesis
    proof cases
      case small
      then show ?thesis using assms by (simp add: GetGradientIndex_def bindM_def CHECK_def)
    next
      case mem_keep
      then show ?thesis using assms by (simp add: GetGradientIndex_in_memory_keep)
    next
      case mem_build
      then show ?thesis using assms by (simp add: GetGradientIndex_in_memory_rebuild)
    next
      case disk
      have r: "row_ready (gi_entered s)"
        using assms by (simp add: gi_entered_def gi_lookup_def split: option.splits)
      show ?thesis
        using r
        by (simp add: GetGradientIndex_on_disk [OF assms disk(2) disk(1)] gi_rebuilt_fields
            gi_rebuild_failed_def split: option.splits)
    qed
  qed
  show "row_ready (snd (GetEllpackBatches prm s))"
    using assms by (simp add: GetEllpackBatches_def AssertGPUSupport_def)
qed

section \<open>Concrete runs\<close>

lemma ex_ctor_ok:
  "fst (SparsePageDMatrix_new ex_env ''m'' ex_batches (ex_batch 0 0 0) 0 1 []) = Inr ()"
proof -
  have q: "\<forall>b\<in>set ex_batches. queryable ex_env b"
    by (simp add: queryable_def ex_batches_def ex_batch_def)
  have c: "Allreduce_Max ex_env (fold max (map (\<lambda>b. NumCols (adapter b)) ex_batches) 0) \<noteq> 0"
    by (simp add: Allreduce_Max_def ex_env_def ex_batches_def ex_batch_def)
  from ctor_outcome(1) [where e = ex_env and ptr = "''m''" and bs = ex_batches
      and ph = "ex_batch 0 0 0" and mis = 0 and nt = 1 and pfx = "[]"] q c
  show ?thesis by simp
qed

lemma ex_matrix_ready: "row_ready ex_matrix"
  unfolding ex_matrix_def by (rule constructed_row_ready [OF ex_ctor_ok])

lemma ex_hess_param_facts:
  "2 \<le> max_bin ex_hess_param" "hess ex_hess_param \<noteq> [] \<or> regen ex_hess_param"
  "\<not> regen ex_hess_param" "max_bin ex_hess_param = 256" "hess ex_hess_param = [1]"
  by (simp_all add: ex_hess_param_def)

lemma ex_sketch_nonempty: "Size (sketch ex_env ps mb so hs) \<noteq> 0"
  by (simp add: ex_env_def Size_def)

lemma ex_matrix_no_gi_entry: "cache_info ex_matrix (gi_key ex_matrix) = None"
  by code_simp

lemma ex_indexed_eq: "ex_indexed = gi_rebuilt ex_env ex_hess_param (gi_entered ex_matrix)"
proof -
  have a: "on_disk_rebuild ex_hess_param ex_matrix"
    by (simp add: on_disk_rebuild_def ex_matrix_no_gi_entry)
  show ?thesis
    unfolding ex_indexed_def
    by (simp add: GetGradientIndex_on_disk [OF ex_matrix_ready ex_hess_param_facts(2)
          ex_hess_param_facts(1)] a ex_sketch_nonempty)
qed

lemma ex_written_facts:
  "row_ready ex_written"
  "gi_key ex_written = gi_key ex_matrix"
  "cache_written ex_written (gi_key ex_matrix)"
  "cache_info ex_written (gi_key ex_matrix) \<noteq> None"
  "ghist_index_source ex_written = Some (new_gi_source ex_env ex_hess_param ex_matrix)"
  "batch_param ex_written = ex_hess_param"
  "next_obj ex_written = Suc (next_obj ex_matrix)"
  "info ex_written = info ex_matrix"
proof -
  have k: "gi_key ex_indexed = gi_key ex_matrix"
    by (simp add: ex_indexed_eq)
  have c: "cache_info ex_indexed (gi_key ex_matrix) \<noteq> None"
    using gi_rebuilt_fields(2) [of ex_env ex_hess_param "gi_entered ex_matrix"]
    by (simp add: ex_indexed_eq)
  show "row_ready ex_written"
    unfolding ex_written_def
    by (rule row_ready_Commit) (simp add: ex_indexed_eq gi_rebuilt_fields ex_matrix_ready)
  show "gi_key ex_written = gi_key ex_matrix"
    by (simp add: ex_written_def k)
  show "cache_written ex_written (gi_key ex_matrix)"
    using c by (simp add: ex_written_def k cache_written_Commit)
  show "cache_info ex_written (gi_key ex_matrix) \<noteq> None"
    using c by (simp add: ex_written_def k cache_info_Commit_None)
  show "ghist_index_source ex_written = Some (new_gi_source ex_env ex_hess_param ex_matrix)"
    by (simp add: ex_written_def ex_indexed_eq gi_rebuilt_fields)
  show "batch_param ex_written = ex_hess_param"
    by (simp add: ex_written_def ex_indexed_eq gi_rebuilt_fields)
  show "next_obj ex_written = Suc (next_obj ex_matrix)"
    by (simp add: ex_written_def ex_indexed_eq)
  show "info ex_written = info ex_matrix"
    by (simp add: ex_written_def ex_indexed_eq)
qed

lemma ex_matrix_num_col: "num_col (info ex_matrix) \<noteq> 0"
  using ctor_outcome(2) [OF ex_ctor_ok]
  by (simp add: ex_matrix_def Allreduce_Max_def ex_env_def ex_batches_def ex_batch_def)

lemma ex_col_facts:
  "row_ready ex_col" "num_col (info ex_col) \<noteq> 0"
  "cache_written ex_col (cache_key ''.col.page'' ex_col)" "column_source ex_col \<noteq> None"
proof -
  note a = GetColumnBatches_after [OF ex_matrix_ready ex_matrix_num_col, where e = ex_env
      and fmt = "''.col.page''"]
  show "row_ready ex_col"
    unfolding ex_col_def using a by (intro row_ready_Commit) simp
  show "num_col (info ex_col) \<noteq> 0"
    using a by (simp add: ex_col_def ex_matrix_num_col)
  show "cache_written ex_col (cache_key ''.col.page'' ex_col)"
    using a by (simp add: ex_col_def cache_written_Commit)
  show "column_source ex_col \<noteq> None"
    using a by (simp add: ex_col_def)
qed

lemma ex_sorted_facts:
  "row_ready ex_sorted" "num_col (info ex_sorted) \<noteq> 0"
  "cache_written ex_sorted (cache_key ''.sorted.col.page'' ex_sorted)"
  "sorted_column_source ex_sorted \<noteq> None"
proof -
  note a = GetSortedColumnBatches_after [OF ex_matrix_ready ex_matrix_num_col, where e = ex_env
      and fmt = "''.sorted.col.page''"]
  show "row_ready ex_sorted"
    unfolding ex_sorted_def using a by (intro row_ready_Commit) simp
  show "num_col (info ex_sorted) \<noteq> 0"
    using a by (simp add: ex_sorted_def ex_matrix_num_col)
  show "cache_written ex_sorted (cache_key ''.sorted.col.page'' ex_sorted)"
    using a by (simp add: ex_sorted_def cache_written_Commit)
  show "sorted_column_source ex_sorted \<noteq> None"
    using a by (simp add: ex_sorted_def)
qed

lemma ex_regen_param_facts:
  "2 \<le> max_bin ex_regen_param" "hess ex_regen_param \<noteq> [] \<or> regen ex_regen_param"
  "regen ex_regen_param" "max_bin ex_regen_param = 256"
  by (simp_all add: ex_regen_param_def)

theorem constructor_metadata_witness:
  "fst (SparsePageDMatrix_new ex_env ''m'' ex_batches (ex_batch 0 0 0) 0 1 []) = Inr () \<and>
   num_row (info ex_matrix) = 300 \<and> num_nonzero (info ex_matrix) = 9 \<and>
   num_col (info ex_matrix) = 20 \<and> unat (num_row (info ex_matrix)) = 300 \<and>
   unat (num_nonzero (info ex_matrix)) = 9"
proof -
  note ok = ex_ctor_ok
  from constructor_metadata [OF ok] show ?thesis
    using ok
    by (simp add: ex_matrix_def ex_batches_def ex_batch_def ex_env_def Allreduce_Max_def Size_def)
qed

theorem zero_columns_fatal_witness:
  "fst (SparsePageDMatrix_new ex_env ''m'' [ex_batch 2 0 0] (ex_batch 0 0 0) 0 1 []) =
     Inl (CheckFailed NumColNonzero) \<and>
   num_col (info ex_empty_matrix) = 0 \<and>
   fst (GetColumnBatches ex_env ex_empty_matrix) = Inl (CheckFailed NumColNonzero) \<and>
   column_source (snd (GetColumnBatches ex_env ex_empty_matrix)) = column_source ex_empty_matrix \<and>
   source_events (snd (GetColumnBatches ex_env ex_empty_matrix)) = source_events ex_empty_matrix \<and>
   fst (GetSortedColumnBatches ex_env ex_empty_matrix) = Inl (CheckFailed NumColNonzero) \<and>
   source_events (snd (GetSortedColumnBatches ex_env ex_empty_matrix)) =
     source_events ex_empty_matrix"
proof -
  have q: "\<forall>b\<in>set [ex_batch 2 0 0]. queryable ex_env b"
    by (simp add: queryable_def ex_batch_def)
  have r: "Allreduce_Max ex_env (fold max (map (\<lambda>b. NumCols (adapter b)) [ex_batch 2 0 0]) 0) = 0"
    by (simp add: Allreduce_Max_def ex_env_def ex_batch_def)
  have z: "num_col (info ex_empty_matrix) = 0"
    by code_simp
  from zero_columns_fatal [where bs = "[ex_batch 2 0 0]" and e = ex_env and s = ex_empty_matrix
      and ptr = "''m''" and ph = "ex_batch 0 0 0" and mis = 0 and nt = 1 and pfx = "[]"]
  show ?thesis
    using q r z by blast
qed

theorem device_fallback_witness:
  "snd (HostAdapterDispatch ex_device_batch NumRows) \<and>
   snd (HostAdapterDispatch ex_device_batch NumCols) \<and> \<not> use_cuda ex_env \<and>
   ex_device_batch \<in> set [ex_batch 2 3 1, ex_device_batch] \<and>
   num_rows ex_env ex_device_batch = Inl GPUSupportMissing \<and>
   num_cols ex_env ex_device_batch = Inl GPUSupportMissing \<and>
   fst (SparsePageDMatrix_new ex_env ''m'' [ex_batch 2 3 1, ex_device_batch] (ex_batch 0 0 0) 0 1 [])
     = Inl GPUSupportMissing"
proof -
  have a: "snd (HostAdapterDispatch ex_device_batch NumRows)"
    and b: "snd (HostAdapterDispatch ex_device_batch NumCols)"
    by (simp_all add: HostAdapterDispatch_def ex_device_batch_def)
  have c: "\<not> use_cuda ex_env" by (simp add: ex_env_def)
  have d: "ex_device_batch \<in> set [ex_batch 2 3 1, ex_device_batch]" by simp
  from device_fallback [where p = ex_device_batch and e = ex_env
      and bs = "[ex_batch 2 3 1, ex_device_batch]" and ptr = "''m''" and ph = "ex_batch 0 0 0"
      and mis = 0 and nt = 1 and pfx = "[]"]
  show ?thesis
    using a b c d by simp
qed

theorem GetGradientIndex_max_bin_witness:
  "max_bin \<lparr>max_bin = 1, hess = [], regen = False\<rparr> < 2 \<and>
   GetGradientIndex ex_env \<lparr>max_bin = 1, hess = [], regen = False\<rparr> ex_matrix
     = (Inl (CheckFailed MaxBinAtLeast2), ex_matrix)"
  using GetGradientIndex_max_bin [where prm = "\<lparr>max_bin = 1, hess = [], regen = False\<rparr>"
      and e = ex_env and s = ex_matrix]
  by simp

theorem GetEllpackBatches_fails_witness:
  "GetEllpackBatches \<lparr>max_bin = 256, hess = [], regen = False\<rparr> ex_matrix =
     (Inl GPUSupportMissing, ex_matrix)"
  by (rule GetEllpackBatches_fails)

theorem batch_retrieval_keeps_metadata_witness:
  "info (snd (GetRowBatches ex_env ex_matrix)) = info ex_matrix \<and>
   info (snd (GetColumnBatches ex_env ex_matrix)) = info ex_matrix \<and>
   info (snd (GetSortedColumnBatches ex_env ex_matrix)) = info ex_matrix \<and>
   info (snd (GetGradientIndex ex_env \<lparr>max_bin = 256, hess = [1], regen = False\<rparr> ex_matrix))
     = info ex_matrix"
  by (rule batch_retrieval_keeps_metadata)

theorem in_memory_index_rebuild_witness:
  "row_ready ex_matrix \<and> hess (ex_param 256) = [] \<and> \<not> regen (ex_param 256) \<and>
   2 \<le> max_bin (ex_param 256) \<and> in_memory_rebuild (ex_param 256) ex_matrix \<and>
   builds ex_matrix = 0 \<and>
   builds (snd (GetGradientIndex ex_env (ex_param 256) ex_matrix)) = 1 \<and>
   batch_param (snd (GetGradientIndex ex_env (ex_param 256) ex_matrix)) = ex_param 256 \<and>
   in_memory_rebuild (ex_param 64) (snd (GetGradientIndex ex_env (ex_param 256) ex_matrix)) \<and>
   builds (snd (GetGradientIndex ex_env (ex_param 64)
                  (snd (GetGradientIndex ex_env (ex_param 256) ex_matrix)))) = 2"
proof -
  have p: "hess (ex_param 256) = []" "\<not> regen (ex_param 256)" "2 \<le> max_bin (ex_param 256)"
    "max_bin (ex_param 256) = 256"
    by (simp_all add: ex_param_def)
  have q: "max_bin (ex_param 64) = 64 \<and> hess (ex_param 64) = [] \<and> \<not> regen (ex_param 64)"
    by (simp add: ex_param_def)
  have rb: "in_memory_rebuild (ex_param 256) ex_matrix"
    by code_simp
  have b0: "builds ex_matrix = 0"
    by code_simp
  from in_memory_index_rebuild [OF ex_matrix_ready p(1,2,3), of ex_env]
  show ?thesis
    using ex_matrix_ready p q rb b0 by simp
qed

theorem on_disk_index_rebuild_witness:
  "row_ready ex_matrix \<and> on_disk_rebuild ex_hess_param ex_matrix \<and>
   fst (GetGradientIndex ex_env ex_hess_param ex_matrix) =
     Inr (BatchIterator (Some (next_obj ex_matrix))) \<and>
   batch_param ex_indexed = ex_hess_param \<and>
   cache_info ex_indexed (gi_key ex_matrix) =
     Some \<lparr>written = False, name = MakeId (cache_prefix ex_matrix) (self ex_matrix),
           format = ''.gradient_index.page''\<rparr> \<and>
   row_ready ex_written \<and> \<not> on_disk_rebuild ex_hess_param ex_written \<and>
   trace (snd (GetGradientIndex ex_env ex_hess_param ex_written)) =
     trace ex_written @ [SourceReset ''.row.page'', SourceReset ''.gradient_index.page''] \<and>
   cache_info (snd (GetGradientIndex ex_env ex_hess_param ex_written)) = cache_info ex_written"
proof -
  have p: "hess ex_hess_param \<noteq> [] \<or> regen ex_hess_param" "2 \<le> max_bin ex_hess_param"
    by (simp_all add: ex_hess_param_def)
  have a: "on_disk_rebuild ex_hess_param ex_matrix"
    by (simp add: on_disk_rebuild_def ex_matrix_no_gi_entry)
  have nz: "Size (sketch ex_env (row_pages ex_matrix) (max_bin ex_hess_param)
              (regen ex_hess_param) (hess ex_hess_param)) \<noteq> 0"
    by (simp add: ex_env_def Size_def)
  have b: "\<not> on_disk_rebuild ex_hess_param ex_written"
    using ex_written_facts(2,3,4,6)
    by (simp add: on_disk_rebuild_def BatchParam_ne_def ex_hess_param_facts)
  note g = ex_written_facts(5)
  from on_disk_index_rebuild [OF ex_matrix_ready p, of ex_env]
    on_disk_index_rebuild [OF ex_written_facts(1) p, of ex_env]
  show ?thesis
    using ex_matrix_ready ex_written_facts(1) a nz b g
    by (simp add: ex_indexed_def)
qed

theorem row_batches_restart_witness:
  "row_ready ex_matrix \<and> row_pages ex_matrix = map page ex_batches \<and>
   fst (drain (snd (GetRowBatches ex_env ex_matrix))) = map page ex_batches \<and>
   fst (drain ((SparsePageSource_next ^^ 2) (snd (GetRowBatches ex_env ex_matrix)))) =
     [page (ex_batch 50 20 4)] \<and>
   fst (drain (snd (GetRowBatches ex_env
          ((SparsePageSource_next ^^ 2) (snd (GetRowBatches ex_env ex_matrix)))))) =
     map page ex_batches"
proof -
  have p: "row_pages ex_matrix = map page ex_batches"
    unfolding ex_matrix_def by (rule constructed_row_pages [OF ex_ctor_ok])
  from row_batches_restart [OF ex_matrix_ready, of ex_env 2]
  show ?thesis
    using ex_matrix_ready by (simp add: p) (simp add: ex_batches_def)
qed

theorem written_cache_replay_witness:
  "row_ready ex_matrix \<and> row_ready ex_col \<and> row_ready ex_sorted \<and> row_ready ex_written \<and>
   replays_only ex_matrix (snd (GetRowBatches ex_env ex_matrix)) \<and>
   trace (snd (GetRowBatches ex_env ex_matrix)) = trace ex_matrix @ [SourceReset ''.row.page''] \<and>
   fst (drain (snd (GetRowBatches ex_env ex_matrix))) = row_pages ex_matrix \<and>
   num_col (info ex_col) \<noteq> 0 \<and> cache_written ex_col (cache_key ''.col.page'' ex_col) \<and>
   replays_only ex_col (snd (GetColumnBatches ex_env ex_col)) \<and>
   trace (snd (GetColumnBatches ex_env ex_col)) =
     trace ex_col @ [SourceReset ''.row.page'', SourceReset ''.col.page''] \<and>
   num_col (info ex_sorted) \<noteq> 0 \<and>
   cache_written ex_sorted (cache_key ''.sorted.col.page'' ex_sorted) \<and>
   replays_only ex_sorted (snd (GetSortedColumnBatches ex_env ex_sorted)) \<and>
   trace (snd (GetSortedColumnBatches ex_env ex_sorted)) =
     trace ex_sorted @ [SourceReset ''.row.page'', SourceReset ''.sorted.col.page''] \<and>
   cache_written ex_written (gi_key ex_written) \<and>
   replays_only ex_written (snd (GetGradientIndex ex_env ex_hess_param ex_written)) \<and>
   trace (snd (GetGradientIndex ex_env ex_hess_param ex_written)) =
     trace ex_written @ [SourceReset ''.row.page'', SourceReset ''.gradient_index.page''] \<and>
   regen ex_regen_param \<and>
   replays_only ex_written (snd (GetGradientIndex ex_env ex_regen_param ex_written)) \<and>
   iter_calls (snd (GetGradientIndex ex_env ex_regen_param ex_written)) = iter_calls ex_written \<and>
   row_sources_created (snd (GetGradientIndex ex_env ex_regen_param ex_written)) =
     row_sources_created ex_written \<and>
   disk (snd (GetGradientIndex ex_env ex_regen_param ex_written)) = disk ex_written"
proof -
  obtain c where c: "column_source ex_col = Some c"
    using ex_col_facts(4) by auto
  obtain d where d: "sorted_column_source ex_sorted = Some d"
    using ex_sorted_facts(4) by auto
  obtain g where g: "ghist_index_source ex_written = Some g"
    using ex_written_facts(5) by auto
  have same: "\<not> BatchParam_ne (batch_param ex_written) ex_hess_param"
    by (simp add: ex_written_facts BatchParam_ne_def)
  have wk: "cache_written ex_written (gi_key ex_written)"
    using ex_written_facts(2,3) by simp
  note m = written_cache_replay [OF ex_matrix_ready, of ex_env ex_hess_param]
  note cc = written_cache_replay [OF ex_col_facts(1), of ex_env ex_hess_param]
  note sc = written_cache_replay [OF ex_sorted_facts(1), of ex_env ex_hess_param]
  note w = written_cache_replay [OF ex_written_facts(1), of ex_env ex_hess_param]
  note r = written_cache_replay [OF ex_written_facts(1), of ex_env ex_regen_param]
  have m1: "replays_only ex_matrix (snd (GetRowBatches ex_env ex_matrix))"
    and m2: "trace (snd (GetRowBatches ex_env ex_matrix)) =
               trace ex_matrix @ [SourceReset ''.row.page'']"
    using m by blast+
  from m have "drain (snd (GetRowBatches ex_env ex_matrix)) =
      (row_pages ex_matrix,
       reposition (length (row_pages ex_matrix)) [SourceReset ''.row.page''] ex_matrix)"
    by blast
  then have m3: "fst (drain (snd (GetRowBatches ex_env ex_matrix))) = row_pages ex_matrix"
    by simp
  have c1: "replays_only ex_col (snd (GetColumnBatches ex_env ex_col))"
    using cc by blast
  have c2: "trace (snd (GetColumnBatches ex_env ex_col)) =
      trace ex_col @ [SourceReset ''.row.page'', SourceReset ''.col.page'']"
    using cc ex_col_facts(2,3) c by blast
  have s1: "replays_only ex_sorted (snd (GetSortedColumnBatches ex_env ex_sorted))"
    using sc by blast
  have s2: "trace (snd (GetSortedColumnBatches ex_env ex_sorted)) =
      trace ex_sorted @ [SourceReset ''.row.page'', SourceReset ''.sorted.col.page'']"
    using sc ex_sorted_facts(2,3) d by blast
  have w1: "replays_only ex_written (snd (GetGradientIndex ex_env ex_hess_param ex_written))"
    using w by blast
  have w2: "trace (snd (GetGradientIndex ex_env ex_hess_param ex_written)) =
      trace ex_written @ [SourceReset ''.row.page'', SourceReset ''.gradient_index.page'']"
    using w wk g same ex_hess_param_facts(1,2,3) by blast
  have r1: "replays_only ex_written (snd (GetGradientIndex ex_env ex_regen_param ex_written))"
    using r by blast
  have r2: "iter_calls (snd (GetGradientIndex ex_env ex_regen_param ex_written)) =
      iter_calls ex_written"
    using r by blast
  have r3: "row_sources_created (snd (GetGradientIndex ex_env ex_regen_param ex_written)) =
        row_sources_created ex_written"
    and r4: "disk (snd (GetGradientIndex ex_env ex_regen_param ex_written)) = disk ex_written"
    using r1 by (simp_all add: replays_only_def row_frame_def)
  show ?thesis
    using ex_matrix_ready ex_col_facts(1,2,3) ex_sorted_facts(1,2,3) ex_written_facts(1) wk
      ex_regen_param_facts(3) m1 m2 m3 c1 c2 s1 s2 w1 w2 r1 r2 r3 r4
    by (intro conjI)
qed

end
